theory Spec2Isabelle
  imports Complex_Main "HOL-Library.Word" "HOL-Library.Char_ord" "HOL-Library.List_Lexorder"
begin

section \<open>XReserve relay indexer: data model\<close>

text \<open>
  The indexer (\<^verbatim>\<open>indexer/src\<close>) keeps relay jobs in one SQLite table. Three activities
  work on it: the HTTP API (\<^verbatim>\<open>api.ts\<close>), the attestation poller (\<^verbatim>\<open>poller.ts\<close>) and
  the submitter (\<^verbatim>\<open>submitter.ts\<close>). JavaScript strings are modelled as \<^typ>\<open>string\<close>,
  numbers that the code only uses as counters or identifiers as \<^typ>\<open>int\<close>, \<^verbatim>\<open>null\<close> as
  \<^const>\<open>None\<close>, a thrown error as \<^const>\<open>Inl\<close> of its message, and a \<^verbatim>\<open>Uint8Array\<close> as a
  list of 8-bit words. Timestamps are the ISO strings the code stores.
\<close>

subsection \<open>types.ts\<close>

datatype RelayStatus = Pending | Polling | Attested | Submitted | Confirmed | Failed

datatype Outcome = Forwarded | Fallback | OperatorRouted

record RelayJob =
  txHash :: string
  sourceDomain :: int
  attestedMessage :: "string option"
  attestation :: "string option"
  irisNonce :: "string option"
  mintRecipient :: "string option"
  destinationDomain :: "int option"
  amount :: "string option"
  ethTxHash :: "string option"
  ethBlockNumber :: "int option"
  status :: RelayStatus
  outcome :: "Outcome option"
  error :: "string option"
  pollAttempts :: int
  retryCount :: int
  createdAt :: string
  attestedAt :: "string option"
  submittedAt :: "string option"
  confirmedAt :: "string option"
  updatedAt :: string

text \<open>
  \<^verbatim>\<open>Partial<RelayJob>\<close> as \<^verbatim>\<open>updateJob\<close> reads it: for each key of its column map,
  \<^const>\<open>None\<close> when the key is absent from the object and \<^term>\<open>Some v\<close> when it is present
  (\<^term>\<open>Some None\<close> is a present key holding \<^verbatim>\<open>null\<close>).
\<close>

record Updates =
  u_sourceDomain :: "int option"
  u_attestedMessage :: "string option option"
  u_attestation :: "string option option"
  u_irisNonce :: "string option option"
  u_mintRecipient :: "string option option"
  u_destinationDomain :: "int option option"
  u_amount :: "string option option"
  u_ethTxHash :: "string option option"
  u_ethBlockNumber :: "int option option"
  u_status :: "RelayStatus option"
  u_outcome :: "Outcome option option"
  u_error :: "string option option"
  u_pollAttempts :: "int option"
  u_retryCount :: "int option"
  u_attestedAt :: "string option option"
  u_submittedAt :: "string option option"
  u_confirmedAt :: "string option option"

definition noUpdates :: Updates where
  "noUpdates = \<lparr> u_sourceDomain = None, u_attestedMessage = None, u_attestation = None,
     u_irisNonce = None, u_mintRecipient = None, u_destinationDomain = None, u_amount = None,
     u_ethTxHash = None, u_ethBlockNumber = None, u_status = None, u_outcome = None,
     u_error = None, u_pollAttempts = None, u_retryCount = None, u_attestedAt = None,
     u_submittedAt = None, u_confirmedAt = None \<rparr>"

subsection \<open>store.ts\<close>

text \<open>
  The table \<^verbatim>\<open>relay_jobs\<close> is the list of its rows in insertion order. \<^verbatim>\<open>tx_hash\<close> is the
  primary key: \<^verbatim>\<open>INSERT\<close> on an existing key throws and changes nothing.
\<close>

type_synonym Store = "RelayJob list"

definition getJob :: "Store \<Rightarrow> string \<Rightarrow> RelayJob option" where
  "getJob db h = find (\<lambda>j. txHash j = h) db"

definition createJob :: "Store \<Rightarrow> RelayJob \<Rightarrow> string + Store" where
  "createJob db job =
     (if getJob db (txHash job) \<noteq> None
      then Inl ''UNIQUE constraint failed: relay_jobs.tx_hash''
      else Inr (db @ [job]))"

definition setField :: "'a option \<Rightarrow> 'a \<Rightarrow> 'a" where
  "setField u old = (case u of None \<Rightarrow> old | Some v \<Rightarrow> v)"

definition applyUpdates :: "Updates \<Rightarrow> string \<Rightarrow> RelayJob \<Rightarrow> RelayJob" where
  "applyUpdates u now j =
     j \<lparr> sourceDomain := setField (u_sourceDomain u) (sourceDomain j),
         attestedMessage := setField (u_attestedMessage u) (attestedMessage j),
         attestation := setField (u_attestation u) (attestation j),
         irisNonce := setField (u_irisNonce u) (irisNonce j),
         mintRecipient := setField (u_mintRecipient u) (mintRecipient j),
         destinationDomain := setField (u_destinationDomain u) (destinationDomain j),
         amount := setField (u_amount u) (amount j),
         ethTxHash := setField (u_ethTxHash u) (ethTxHash j),
         ethBlockNumber := setField (u_ethBlockNumber u) (ethBlockNumber j),
         status := setField (u_status u) (status j),
         outcome := setField (u_outcome u) (outcome j),
         error := setField (u_error u) (error j),
         pollAttempts := setField (u_pollAttempts u) (pollAttempts j),
         retryCount := setField (u_retryCount u) (retryCount j),
         attestedAt := setField (u_attestedAt u) (attestedAt j),
         submittedAt := setField (u_submittedAt u) (submittedAt j),
         confirmedAt := setField (u_confirmedAt u) (confirmedAt j),
         updatedAt := now \<rparr>"

text \<open>
  \<^verbatim>\<open>UPDATE relay_jobs SET updated_at = @updated_at, ... WHERE tx_hash = @tx_hash\<close>; the
  time \<^verbatim>\<open>new Date().toISOString()\<close> read inside \<^verbatim>\<open>updateJob\<close> is the argument \<open>now\<close>.
\<close>

definition updateJob :: "Store \<Rightarrow> string \<Rightarrow> string \<Rightarrow> Updates \<Rightarrow> Store" where
  "updateJob db now h u = map (\<lambda>j. if txHash j = h then applyUpdates u now j else j) db"

text \<open>
  \<^verbatim>\<open>ORDER BY created_at ASC\<close> compares the stored ISO strings and names no second key:
  the order of rows with equal \<^verbatim>\<open>created_at\<close> is SQLite's choice (it depends on the index
  the query plan scans). The parameter \<open>tie\<close> ranks the rows as the engine visits them;
  the sort by \<^verbatim>\<open>created_at\<close> is stable, so \<open>tie\<close> decides among equal keys only.
\<close>

definition orderByCreatedAt :: "(RelayJob \<Rightarrow> nat) \<Rightarrow> RelayJob list \<Rightarrow> RelayJob list" where
  "orderByCreatedAt tie rows = sort_key createdAt (sort_key tie rows)"

definition getJobsByStatus ::
  "(RelayJob \<Rightarrow> nat) \<Rightarrow> Store \<Rightarrow> RelayStatus list \<Rightarrow> nat \<Rightarrow> RelayJob list" where
  "getJobsByStatus tie db statuses limit =
     take limit (orderByCreatedAt tie (filter (\<lambda>j. status j \<in> set statuses) db))"

definition getOldestByStatus :: "(RelayJob \<Rightarrow> nat) \<Rightarrow> Store \<Rightarrow> RelayStatus \<Rightarrow> RelayJob option" where
  "getOldestByStatus tie db st =
     (case orderByCreatedAt tie (filter (\<lambda>j. status j = st) db) of
        [] \<Rightarrow> None
      | j # _ \<Rightarrow> Some j)"

definition countByStatus :: "Store \<Rightarrow> RelayStatus \<Rightarrow> nat" where
  "countByStatus db st = length (filter (\<lambda>j. status j = st) db)"

subsection \<open>config.ts\<close>

text \<open>The fields of \<^verbatim>\<open>Config\<close> that the poller and the submitter read.\<close>

record Config =
  routerAddress :: string
  routerBytes32 :: string
  attestationTimeoutMs :: int
  maxRetries :: int

subsection \<open>abis.ts\<close>

text \<open>
  \<^verbatim>\<open>ethers.id(sig)\<close> is the Keccak-256 hash of the signature's UTF-8 bytes as a lower-case
  hex string; the four constants below are its values on the four event signatures.
\<close>

definition RELAYED_TOPIC0 :: string where
  "RELAYED_TOPIC0 = ''0xb1b3d3f595a1a6e6243a05d09e43f6ee675e330ae3c6377488e66485eebeb67b''"

definition FALLBACK_TRIGGERED_TOPIC0 :: string where
  "FALLBACK_TRIGGERED_TOPIC0 = ''0xd3bcb21192b8555597fbf504e5e863600d119c6bea6f2b080ad7c9ccca5fe9dd''"

definition RECOVERED_FROM_CONSUMED_NONCE_TOPIC0 :: string where
  "RECOVERED_FROM_CONSUMED_NONCE_TOPIC0 = ''0xd1e2bfef0d78343bee0a5dc71d25faffdc599dfe7f6bc64892126acf63944087''"

definition OPERATOR_ROUTED_TOPIC0 :: string where
  "OPERATOR_ROUTED_TOPIC0 = ''0x4d3269154090f1e7c4a4453546ebf50a4e124e80eacf740adebeacc962065b47''"

subsection \<open>submitter.ts\<close>

text \<open>An \<^verbatim>\<open>ethers.Log\<close> and a transaction receipt, with the fields the submitter reads.\<close>

record Log =
  topics :: "string list"

record TransactionReceipt =
  receiptStatus :: "int option"
  logs :: "Log list"
  blockNumber :: int

text \<open>\<^verbatim>\<open>log.topics[0] === t\<close>: \<^verbatim>\<open>undefined\<close>, hence false, on a log without topics.\<close>

definition topic0Is :: "string \<Rightarrow> Log \<Rightarrow> bool" where
  "topic0Is t l = (case topics l of [] \<Rightarrow> False | x # _ \<Rightarrow> x = t)"

definition determineOutcome :: "Log list \<Rightarrow> Outcome option" where
  "determineOutcome ls =
     (let relayedLog = find (topic0Is RELAYED_TOPIC0) ls;
          fallbackLog = find (topic0Is FALLBACK_TRIGGERED_TOPIC0) ls;
          operatorRoutedLog = find (topic0Is OPERATOR_ROUTED_TOPIC0) ls
      in if relayedLog \<noteq> None then Some Forwarded
         else if fallbackLog \<noteq> None then Some Fallback
         else if operatorRoutedLog \<noteq> None then Some OperatorRouted
         else None)"

text \<open>The lines \<^verbatim>\<open>console.warn\<close> writes while the outcome is determined.\<close>

definition outcomeWarnings :: "string \<Rightarrow> Log list \<Rightarrow> string list" where
  "outcomeWarnings h ls =
     (if determineOutcome ls = Some OperatorRouted
      then [''Operator-routed for '' @ h @ '' (empty or malformed hookData)''] else [])
     @ (if find (topic0Is RECOVERED_FROM_CONSUMED_NONCE_TOPIC0) ls \<noteq> None
        then [''Nonce-consumed recovery used for '' @ h] else [])"

text \<open>\<^verbatim>\<open>String.prototype.includes\<close>.\<close>

fun str_includes :: "string \<Rightarrow> string \<Rightarrow> bool" where
  "str_includes [] sub = (sub = [])"
| "str_includes (c # cs) sub = (take (length sub) (c # cs) = sub \<or> str_includes cs sub)"

definition isTerminal :: "string \<Rightarrow> bool" where
  "isTerminal message =
     (str_includes message ''transfer settled'' \<or>
      str_includes message ''Nonce already used'' \<or>
      str_includes message ''invalid destinationDomain'' \<or>
      str_includes message ''invalid destinationCaller'' \<or>
      str_includes message ''invalid mintRecipient'')"

text \<open>
  The \<^verbatim>\<open>catch\<close> block of one submission. \<open>job\<close> is the row as it was read at the start of
  the iteration.
\<close>

definition onSubmissionFailure :: "Config \<Rightarrow> RelayJob \<Rightarrow> string \<Rightarrow> string \<Rightarrow> Store \<Rightarrow> Store" where
  "onSubmissionFailure config job message now db =
     (if isTerminal message
      then updateJob db now (txHash job)
             (noUpdates \<lparr> u_status := Some Failed, u_error := Some (Some message),
                          u_retryCount := Some (retryCount job + 1) \<rparr>)
      else let newRetryCount = retryCount job + 1
           in if newRetryCount \<ge> maxRetries config
              then updateJob db now (txHash job)
                     (noUpdates \<lparr> u_status := Some Failed, u_error := Some (Some message),
                                  u_retryCount := Some newRetryCount \<rparr>)
              else updateJob db now (txHash job)
                     (noUpdates \<lparr> u_error := Some (Some message),
                                  u_retryCount := Some newRetryCount \<rparr>))"

definition markSubmitted :: "RelayJob \<Rightarrow> string \<Rightarrow> string \<Rightarrow> string \<Rightarrow> Store \<Rightarrow> Store" where
  "markSubmitted job txh submittedNow now db =
     updateJob db now (txHash job)
       (noUpdates \<lparr> u_ethTxHash := Some (Some txh), u_status := Some Submitted,
                    u_submittedAt := Some (Some submittedNow) \<rparr>)"

definition markConfirmed :: "RelayJob \<Rightarrow> TransactionReceipt \<Rightarrow> string \<Rightarrow> string \<Rightarrow> Store \<Rightarrow> Store" where
  "markConfirmed job receipt confirmedNow now db =
     updateJob db now (txHash job)
       (noUpdates \<lparr> u_ethBlockNumber := Some (Some (blockNumber receipt)),
                    u_confirmedAt := Some (Some confirmedNow),
                    u_outcome := Some (determineOutcome (logs receipt)),
                    u_status := Some Confirmed \<rparr>)"

text \<open>
  What the chain and the clock answer during one iteration of the submitter's loop: the
  result of \<^verbatim>\<open>estimateGas\<close>, of the broadcast (the transaction hash) and of \<^verbatim>\<open>tx.wait(1)\<close>,
  each an error message when the call throws, and the four readings of the clock.
\<close>

record ChainEnv =
  estimateGasResult :: "string + nat"
  sendResult :: "string + string"
  waitResult :: "string + TransactionReceipt option"
  submittedNow :: string
  submittedUpdateNow :: string
  confirmedNow :: string
  finalUpdateNow :: string

text \<open>The outcome of awaiting the receipt: the \<^verbatim>\<open>throw\<close> on a missing or reverted receipt.\<close>

definition awaitReceipt :: "string \<Rightarrow> string + TransactionReceipt option \<Rightarrow> string + TransactionReceipt" where
  "awaitReceipt txh w =
     (case w of
        Inl err \<Rightarrow> Inl err
      | Inr None \<Rightarrow> Inl (''Tx reverted: '' @ txh)
      | Inr (Some receipt) \<Rightarrow>
          if receiptStatus receipt = Some 0 then Inl (''Tx reverted: '' @ txh) else Inr receipt)"

definition submitJob :: "Config \<Rightarrow> ChainEnv \<Rightarrow> RelayJob \<Rightarrow> Store \<Rightarrow> Store" where
  "submitJob config env job db =
     (case estimateGasResult env of
        Inl err \<Rightarrow>
          onSubmissionFailure config job (''Gas estimation failed: '' @ err) (finalUpdateNow env) db
      | Inr gasEstimate \<Rightarrow>
          (case sendResult env of
             Inl err \<Rightarrow> onSubmissionFailure config job err (finalUpdateNow env) db
           | Inr txh \<Rightarrow>
               let db1 = markSubmitted job txh (submittedNow env) (submittedUpdateNow env) db
               in (case awaitReceipt txh (waitResult env) of
                     Inl err \<Rightarrow> onSubmissionFailure config job err (finalUpdateNow env) db1
                   | Inr receipt \<Rightarrow>
                       markConfirmed job receipt (confirmedNow env) (finalUpdateNow env) db1)))"

text \<open>One iteration of the loop of \<^verbatim>\<open>startSubmitter\<close>; without an attested job it only sleeps.\<close>

definition submitterIteration ::
  "(RelayJob \<Rightarrow> nat) \<Rightarrow> Config \<Rightarrow> ChainEnv \<Rightarrow> Store \<Rightarrow> Store" where
  "submitterIteration tie config env db =
     (case getOldestByStatus tie db Attested of
        None \<Rightarrow> db
      | Some job \<Rightarrow> submitJob config env job db)"

subsection \<open>Strings and bytes (JavaScript and ethers helpers)\<close>

text \<open>\<^verbatim>\<open>toLowerCase\<close> and \<^verbatim>\<open>toUpperCase\<close> on the ASCII letters.\<close>

definition upperLetters :: string where
  "upperLetters = ''ABCDEFGHIJKLMNOPQRSTUVWXYZ''"

definition lowerLetters :: string where
  "lowerLetters = ''abcdefghijklmnopqrstuvwxyz''"

definition lowerChar :: "char \<Rightarrow> char" where
  "lowerChar c = (case map_of (zip upperLetters lowerLetters) c of None \<Rightarrow> c | Some d \<Rightarrow> d)"

definition upperChar :: "char \<Rightarrow> char" where
  "upperChar c = (case map_of (zip lowerLetters upperLetters) c of None \<Rightarrow> c | Some d \<Rightarrow> d)"

definition toLowerCase :: "string \<Rightarrow> string" where
  "toLowerCase s = map lowerChar s"

text \<open>\<^verbatim>\<open>Uint8Array.prototype.slice(a, b)\<close> for \<open>0 \<le> a \<le> b\<close>, and \<^verbatim>\<open>s.slice(-n)\<close> on a string.\<close>

definition slice_arr :: "nat \<Rightarrow> nat \<Rightarrow> 'a list \<Rightarrow> 'a list" where
  "slice_arr a b xs = take (b - a) (drop a xs)"

definition lastChars :: "nat \<Rightarrow> string \<Rightarrow> string" where
  "lastChars n s = drop (length s - n) s"

text \<open>\<^verbatim>\<open>ethers.hexlify\<close>: \<^verbatim>\<open>0x\<close> and two lower-case hex digits for each byte.\<close>

definition hexDigit :: "nat \<Rightarrow> char" where
  "hexDigit n = ''0123456789abcdef'' ! n"

definition hexByte :: "8 word \<Rightarrow> string" where
  "hexByte b = [hexDigit (unat b div 16), hexDigit (unat b mod 16)]"

definition hexlify :: "8 word list \<Rightarrow> string" where
  "hexlify bs = ''0x'' @ concat (map hexByte bs)"

text \<open>
  \<^verbatim>\<open>ethers.getBytes\<close> on a string: the bytes of a string matching
  \<^verbatim>\<open>/^0x(?:[0-9a-f][0-9a-f])*$/i\<close>; any other string throws (\<^const>\<open>None\<close>).
\<close>

definition hexValue :: "char \<Rightarrow> nat option" where
  "hexValue c =
     (let n = (of_char c :: nat)
      in if 48 \<le> n \<and> n \<le> 57 then Some (n - 48)
         else if 97 \<le> n \<and> n \<le> 102 then Some (n - 87)
         else if 65 \<le> n \<and> n \<le> 70 then Some (n - 55)
         else None)"

fun parseHexPairs :: "string \<Rightarrow> 8 word list option" where
  "parseHexPairs [] = Some []"
| "parseHexPairs [c] = None"
| "parseHexPairs (c1 # c2 # cs) =
     (case hexValue c1 of
        None \<Rightarrow> None
      | Some hi \<Rightarrow>
          (case hexValue c2 of
             None \<Rightarrow> None
           | Some lo \<Rightarrow>
               (case parseHexPairs cs of
                  None \<Rightarrow> None
                | Some bs \<Rightarrow> Some (word_of_nat (16 * hi + lo) # bs))))"

definition getBytes :: "string \<Rightarrow> 8 word list option" where
  "getBytes s =
     (case s of
        c0 # cx # cs \<Rightarrow>
          if c0 = CHR ''0'' \<and> (cx = CHR ''x'' \<or> cx = CHR ''X'') then parseHexPairs cs else None
      | _ \<Rightarrow> None)"

text \<open>
  A big-endian unsigned integer: \<^verbatim>\<open>DataView.getUint32\<close> on four bytes and
  \<^verbatim>\<open>ethers.toBigInt\<close> on thirty-two.
\<close>

definition bytesToNat :: "8 word list \<Rightarrow> nat" where
  "bytesToNat bs = foldl (\<lambda>acc b. acc * 256 + unat b) 0 bs"

text \<open>\<^verbatim>\<open>toString()\<close> of a non-negative integer: its decimal digits.\<close>

definition digitChar :: "nat \<Rightarrow> char" where
  "digitChar n = ''0123456789'' ! n"

fun decimalString :: "nat \<Rightarrow> string" where
  "decimalString n =
     (if n < 10 then [digitChar n] else decimalString (n div 10) @ [digitChar (n mod 10)])"

declare decimalString.simps [simp del]

text \<open>
  \<^verbatim>\<open>ethers.getAddress\<close> on \<^verbatim>\<open>0x\<close> followed by forty lower-case hex digits (the only
  argument the validator passes) returns the checksum address: the digit at position
  \<open>i\<close> is in upper case when the \<open>i\<close>-th nibble of the Keccak-256 hash of the forty
  characters is at least 8. The hash function is the parameter \<open>keccak256\<close>.
\<close>

definition hashNibble :: "8 word list \<Rightarrow> nat \<Rightarrow> nat" where
  "hashNibble hashed i =
     (let b = (if i div 2 < length hashed then unat (hashed ! (i div 2)) else 0)
      in if even i then b div 16 else b mod 16)"

definition getAddress :: "(8 word list \<Rightarrow> 8 word list) \<Rightarrow> string \<Rightarrow> string" where
  "getAddress keccak256 address =
     (let chars = drop 2 (toLowerCase address);
          expanded = map (\<lambda>c. word_of_nat (of_char c)) chars;
          hashed = keccak256 expanded
      in ''0x'' @ map (\<lambda>(i, c). if hashNibble hashed i \<ge> 8 then upperChar c else c)
                    (zip [0..<length chars] chars))"

subsection \<open>poller.ts: the message validator\<close>

record Validation =
  valid :: bool
  reason :: "string option"
  v_mintRecipient :: "string option"
  v_destinationDomain :: "int option"
  v_amount :: "string option"

definition rejected :: "string \<Rightarrow> Validation" where
  "rejected r = \<lparr> valid = False, reason = Some r, v_mintRecipient = None,
                  v_destinationDomain = None, v_amount = None \<rparr>"

definition BYTES32_ZERO :: string where
  "BYTES32_ZERO = ''0x0000000000000000000000000000000000000000000000000000000000000000''"

text \<open>
  The text of the warning holds an em dash (U+2014); a \<^typ>\<open>string\<close> is a list of bytes, so
  the dash is written as the three bytes of its UTF-8 encoding.
\<close>

definition zeroCallerWarning :: string where
  "zeroCallerWarning =
     ''destinationCaller is zero (open) '' @ [CHR 0xE2, CHR 0x80, CHR 0x94] @ '' nonce front-run risk''"

text \<open>
  The validator on the decoded bytes. The second component of the result holds the lines
  written with \<^verbatim>\<open>console.warn\<close>.
\<close>

definition validateBytes ::
  "(8 word list \<Rightarrow> 8 word list) \<Rightarrow> 8 word list \<Rightarrow> string \<Rightarrow> string \<Rightarrow> Validation \<times> string list" where
  "validateBytes keccak256 message routerAddr routerB32 =
     (if length message < 248 then (rejected ''message too short'', [])
      else
        let destDomain = bytesToNat (slice_arr 8 12 message)
        in if destDomain \<noteq> 0
           then (rejected (''destination domain '' @ decimalString destDomain @ '' != 0 (Ethereum)''), [])
           else
             let destinationCaller = hexlify (slice_arr 108 140 message)
             in if destinationCaller \<noteq> BYTES32_ZERO \<and>
                   toLowerCase destinationCaller \<noteq> toLowerCase routerB32
                then (rejected (''destinationCaller '' @ destinationCaller @ '' != router or zero''), [])
                else
                  let warnings = (if destinationCaller = BYTES32_ZERO then [zeroCallerWarning] else []);
                      mintRecipientBytes32 = hexlify (slice_arr 184 216 message);
                      recipient = getAddress keccak256 (''0x'' @ lastChars 40 mintRecipientBytes32)
                  in if toLowerCase recipient \<noteq> toLowerCase routerAddr
                     then (rejected (''mintRecipient '' @ recipient @ '' != router '' @ routerAddr),
                           warnings)
                     else
                       let amt = decimalString (bytesToNat (slice_arr 216 248 message))
                       in (\<lparr> valid = True, reason = None, v_mintRecipient = Some recipient,
                              v_destinationDomain = Some (int destDomain), v_amount = Some amt \<rparr>,
                           warnings))"

text \<open>\<^verbatim>\<open>validateAttestedMessage\<close>: \<^const>\<open>Inl\<close> is the error \<^verbatim>\<open>ethers.getBytes\<close> throws.\<close>

definition validateAttestedMessage ::
  "(8 word list \<Rightarrow> 8 word list) \<Rightarrow> string \<Rightarrow> string \<Rightarrow> string \<Rightarrow> string + Validation \<times> string list" where
  "validateAttestedMessage keccak256 messageHex routerAddr routerB32 =
     (case getBytes messageHex of
        None \<Rightarrow> Inl ''invalid BytesLike value''
      | Some message \<Rightarrow> Inr (validateBytes keccak256 message routerAddr routerB32))"

subsection \<open>api.ts\<close>

text \<open>
  A JavaScript value as it appears in a parsed JSON body or in a response. A number is
  given by its value; \<open>JOther\<close> stands for arrays and objects.
\<close>

datatype JsValue = JUndefined | JNull | JBool bool | JNum rat | JStr string | JOther

text \<open>
  The two properties \<^verbatim>\<open>POST /relay\<close> reads from \<^verbatim>\<open>req.body\<close>, each \<open>JUndefined\<close> when
  the parsed object lacks it. The handler gets \<^term>\<open>Some req\<close> when the JSON middleware
  left an object in \<^verbatim>\<open>req.body\<close>, and \<^const>\<open>None\<close> when it left \<^verbatim>\<open>undefined\<close>: destructuring
  then throws inside the \<^verbatim>\<open>try\<close>, and the \<^verbatim>\<open>catch\<close> answers 500.
\<close>

record RelayRequest =
  req_sourceDomain :: JsValue
  req_txHash :: JsValue

record Response =
  code :: nat
  body :: "(string \<times> JsValue) list"

definition VALID_SOURCE_DOMAINS :: "int list" where
  "VALID_SOURCE_DOMAINS = [1, 2, 3, 6, 7, 10, 11, 12, 13, 14, 15, 16, 18, 19, 21, 22]"

text \<open>\<^verbatim>\<open>typeof sourceDomain === "number" && VALID_SOURCE_DOMAINS.has(sourceDomain)\<close>.\<close>

definition validSourceDomain :: "JsValue \<Rightarrow> bool" where
  "validSourceDomain v =
     (case v of JNum x \<Rightarrow> x \<in> set (map rat_of_int VALID_SOURCE_DOMAINS) | _ \<Rightarrow> False)"

definition isHexDigit :: "char \<Rightarrow> bool" where
  "isHexDigit c = (c \<in> set ''0123456789abcdefABCDEF'')"

text \<open>\<^verbatim>\<open>TX_HASH_REGEX.test(s)\<close> for \<^verbatim>\<open>/^0x[a-fA-F0-9]{64}$/\<close>.\<close>

definition TX_HASH_REGEX_test :: "string \<Rightarrow> bool" where
  "TX_HASH_REGEX_test s =
     (case s of
        c0 # cx # cs \<Rightarrow> c0 = CHR ''0'' \<and> cx = CHR ''x'' \<and> length cs = 64 \<and> list_all isHexDigit cs
      | _ \<Rightarrow> False)"

definition statusString :: "RelayStatus \<Rightarrow> string" where
  "statusString st =
     (case st of Pending \<Rightarrow> ''pending'' | Polling \<Rightarrow> ''polling'' | Attested \<Rightarrow> ''attested''
      | Submitted \<Rightarrow> ''submitted'' | Confirmed \<Rightarrow> ''confirmed'' | Failed \<Rightarrow> ''failed'')"

definition outcomeString :: "Outcome \<Rightarrow> string" where
  "outcomeString oc =
     (case oc of Forwarded \<Rightarrow> ''forwarded'' | Fallback \<Rightarrow> ''fallback''
      | OperatorRouted \<Rightarrow> ''operator_routed'')"

definition jsString :: "string option \<Rightarrow> JsValue" where
  "jsString v = (case v of None \<Rightarrow> JNull | Some x \<Rightarrow> JStr x)"

definition newJob :: "string \<Rightarrow> int \<Rightarrow> string \<Rightarrow> RelayJob" where
  "newJob normalizedTxHash domain now =
     \<lparr> txHash = normalizedTxHash, sourceDomain = domain, attestedMessage = None,
       attestation = None, irisNonce = None, mintRecipient = None, destinationDomain = None,
       amount = None, ethTxHash = None, ethBlockNumber = None, status = Pending,
       outcome = None, error = None, pollAttempts = 0, retryCount = 0, createdAt = now,
       attestedAt = None, submittedAt = None, confirmedAt = None, updatedAt = now \<rparr>"

text \<open>
  The handler of \<^verbatim>\<open>POST /relay\<close>: the response and the store after it. \<open>now\<close> is the
  clock reading \<^verbatim>\<open>new Date().toISOString()\<close>.
\<close>

definition postRelay :: "RelayRequest option \<Rightarrow> string \<Rightarrow> Store \<Rightarrow> Response \<times> Store" where
  "postRelay reqBody now db =
     (case reqBody of
        None \<Rightarrow> (\<lparr> code = 500, body = [(''error'', JStr ''Internal server error'')] \<rparr>, db)
      | Some req \<Rightarrow>
     (if \<not> validSourceDomain (req_sourceDomain req)
      then (\<lparr> code = 400, body = [(''error'', JStr ''Invalid sourceDomain'')] \<rparr>, db)
      else
        (case req_txHash req of
           JStr h \<Rightarrow>
             if \<not> TX_HASH_REGEX_test h
             then (\<lparr> code = 400, body = [(''error'', JStr ''Invalid txHash format'')] \<rparr>, db)
             else
               let normalizedTxHash = toLowerCase h
               in (case getJob db normalizedTxHash of
                     Some existing \<Rightarrow>
                       (\<lparr> code = 200,
                          body = [(''txHash'', JStr (txHash existing)),
                                  (''status'', JStr (statusString (status existing))),
                                  (''message'', JStr ''Relay job already exists.'')] \<rparr>, db)
                   | None \<Rightarrow>
                       (case createJob db
                               (newJob normalizedTxHash
                                  (case req_sourceDomain req of JNum x \<Rightarrow> \<lfloor>x\<rfloor> | _ \<Rightarrow> 0) now) of
                          Inl err \<Rightarrow>
                            (\<lparr> code = 500, body = [(''error'', JStr ''Internal server error'')] \<rparr>, db)
                        | Inr db' \<Rightarrow>
                            (\<lparr> code = 201,
                               body = [(''txHash'', JStr normalizedTxHash),
                                       (''status'', JStr ''pending''),
                                       (''message'',
                                        JStr ''Relay job created. Poll GET /relay/:txHash for status.'')] \<rparr>,
                             db')))
         | _ \<Rightarrow> (\<lparr> code = 400, body = [(''error'', JStr ''Invalid txHash format'')] \<rparr>, db))))"

text \<open>The body of the 200 response of \<^verbatim>\<open>GET /relay/:txHash\<close>.\<close>

definition jobProjection :: "RelayJob \<Rightarrow> (string \<times> JsValue) list" where
  "jobProjection job =
     [(''txHash'', JStr (txHash job)),
      (''sourceDomain'', JNum (rat_of_int (sourceDomain job))),
      (''status'', JStr (statusString (status job))),
      (''outcome'', jsString (map_option outcomeString (outcome job))),
      (''error'', jsString (error job)),
      (''ethTxHash'', jsString (ethTxHash job)),
      (''createdAt'', JStr (createdAt job)),
      (''attestedAt'', jsString (attestedAt job)),
      (''submittedAt'', jsString (submittedAt job)),
      (''confirmedAt'', jsString (confirmedAt job))]"

definition getRelay :: "string \<Rightarrow> Store \<Rightarrow> Response" where
  "getRelay rawParam db =
     (case getJob db (toLowerCase rawParam) of
        None \<Rightarrow> \<lparr> code = 404, body = [(''error'', JStr ''Job not found'')] \<rparr>
      | Some job \<Rightarrow> \<lparr> code = 200, body = jobProjection job \<rparr>)"

subsection \<open>poller.ts: the polling loop\<close>

record AttestationResult =
  ar_message :: string
  ar_attestation :: string
  ar_nonce :: string

text \<open>
  The loops of the poller and of the submitter are asynchronous: each runs until its next
  \<^verbatim>\<open>await\<close>, and the other loop and the HTTP handlers run in between. The state of a loop
  is where it waits, with the rows it read from the store before (its snapshots).
\<close>

datatype PollerState =
    PIdle
  | PBatch "RelayJob list"
  | PAwaiting RelayJob "RelayJob list"

text \<open>
  The head of the \<^verbatim>\<open>for\<close> body, up to the call of \<^verbatim>\<open>pollForAttestation\<close>. \<open>elapsed\<close> is
  \<^verbatim>\<open>Date.now() - new Date(job.createdAt).getTime()\<close>.
\<close>

definition pollerBegin ::
  "Config \<Rightarrow> int \<Rightarrow> string \<Rightarrow> RelayJob \<Rightarrow> RelayJob list \<Rightarrow> Store \<Rightarrow> PollerState \<times> Store" where
  "pollerBegin config elapsed now job rest db =
     (if elapsed > attestationTimeoutMs config
      then (PBatch rest,
            updateJob db now (txHash job)
              (noUpdates \<lparr> u_status := Some Failed, u_error := Some (Some ''attestation_timeout'') \<rparr>))
      else (PAwaiting job rest,
            if status job = Pending
            then updateJob db now (txHash job) (noUpdates \<lparr> u_status := Some Polling \<rparr>)
            else db))"

text \<open>
  The rest of the \<^verbatim>\<open>for\<close> body, once \<^verbatim>\<open>pollForAttestation\<close> has returned \<open>r\<close>: an error
  message when it threw, \<^const>\<open>None\<close> for \<^verbatim>\<open>null\<close>. The inner \<^verbatim>\<open>try\<close> yields the new
  store, or the message of the error thrown in it.
\<close>

definition pollerTry ::
  "Config \<Rightarrow> (8 word list \<Rightarrow> 8 word list) \<Rightarrow> string + AttestationResult option \<Rightarrow> string \<Rightarrow> string \<Rightarrow>
   RelayJob \<Rightarrow> Store \<Rightarrow> string + Store" where
  "pollerTry config keccak256 r attestedNow now job db =
     (case r of
        Inl err \<Rightarrow> Inl err
      | Inr None \<Rightarrow>
          Inr (updateJob db now (txHash job)
                 (noUpdates \<lparr> u_pollAttempts := Some (pollAttempts job + 1) \<rparr>))
      | Inr (Some result) \<Rightarrow>
          (case validateAttestedMessage keccak256 (ar_message result)
                  (routerAddress config) (routerBytes32 config) of
             Inl err \<Rightarrow> Inl err
           | Inr (validation, warnings) \<Rightarrow>
               if \<not> valid validation
               then Inr (updateJob db now (txHash job)
                           (noUpdates \<lparr> u_status := Some Failed,
                                        u_error := Some (Some (case reason validation of
                                                                 None \<Rightarrow> ''invalid message''
                                                               | Some x \<Rightarrow> x)) \<rparr>))
               else Inr (updateJob db now (txHash job)
                           (noUpdates \<lparr> u_status := Some Attested,
                                        u_attestedMessage := Some (Some (ar_message result)),
                                        u_attestation := Some (Some (ar_attestation result)),
                                        u_irisNonce := Some (Some (ar_nonce result)),
                                        u_mintRecipient := Some (v_mintRecipient validation),
                                        u_destinationDomain := Some (v_destinationDomain validation),
                                        u_amount := Some (v_amount validation),
                                        u_attestedAt := Some (Some attestedNow),
                                        u_pollAttempts := Some (pollAttempts job + 1) \<rparr>))))"

definition pollerResume ::
  "Config \<Rightarrow> (8 word list \<Rightarrow> 8 word list) \<Rightarrow> string + AttestationResult option \<Rightarrow> string \<Rightarrow> string \<Rightarrow>
   RelayJob \<Rightarrow> RelayJob list \<Rightarrow> Store \<Rightarrow> PollerState \<times> Store" where
  "pollerResume config keccak256 r attestedNow now job rest db =
     (case pollerTry config keccak256 r attestedNow now job db of
        Inl err \<Rightarrow> (if err = ''RATE_LIMITED'' then PIdle else PBatch rest, db)
      | Inr db' \<Rightarrow> (PBatch rest, db'))"

subsection \<open>submitter.ts: the loop between its awaits\<close>

datatype SubmitterState =
    SIdle
  | SEstimating RelayJob
  | SSending RelayJob
  | SWaiting RelayJob string

definition estimateDone ::
  "Config \<Rightarrow> string + nat \<Rightarrow> string \<Rightarrow> RelayJob \<Rightarrow> Store \<Rightarrow> SubmitterState \<times> Store" where
  "estimateDone config r now job db =
     (case r of
        Inl err \<Rightarrow> (SIdle, onSubmissionFailure config job (''Gas estimation failed: '' @ err) now db)
      | Inr gasEstimate \<Rightarrow> (SSending job, db))"

definition sendDone ::
  "Config \<Rightarrow> string + string \<Rightarrow> string \<Rightarrow> string \<Rightarrow> RelayJob \<Rightarrow> Store \<Rightarrow> SubmitterState \<times> Store" where
  "sendDone config r sNow now job db =
     (case r of
        Inl err \<Rightarrow> (SIdle, onSubmissionFailure config job err now db)
      | Inr txh \<Rightarrow> (SWaiting job txh, markSubmitted job txh sNow now db))"

definition waitDone ::
  "Config \<Rightarrow> string + TransactionReceipt option \<Rightarrow> string \<Rightarrow> string \<Rightarrow> RelayJob \<Rightarrow> string \<Rightarrow> Store \<Rightarrow>
   SubmitterState \<times> Store" where
  "waitDone config w cNow now job txh db =
     (case awaitReceipt txh w of
        Inl err \<Rightarrow> (SIdle, onSubmissionFailure config job err now db)
      | Inr receipt \<Rightarrow> (SIdle, markConfirmed job receipt cNow now db))"

subsection \<open>The running process\<close>

text \<open>
  A state of the process is the table with the states of the two loops. A step is one
  request to \<^verbatim>\<open>POST /relay\<close>, one stretch of a loop between two awaits, with any answer
  of the network and any reading of the clock, or a restart of the process (\<^verbatim>\<open>index.ts\<close>
  starts both loops afresh on the table as the last run left it).
\<close>

type_synonym Process = "Store \<times> PollerState \<times> SubmitterState"

inductive step :: "Config \<Rightarrow> (8 word list \<Rightarrow> 8 word list) \<Rightarrow> Process \<Rightarrow> Process \<Rightarrow> bool"
  for config :: Config and keccak256 :: "8 word list \<Rightarrow> 8 word list" where
  post: "step config keccak256 (db, p, q) (snd (postRelay reqBody now db), p, q)"
| restart: "step config keccak256 (db, p, q) (db, PIdle, SIdle)"
| poll_fetch:
    "step config keccak256 (db, PIdle, q)
       (db, PBatch (getJobsByStatus tie db [Pending, Polling] 20), q)"
| poll_end: "step config keccak256 (db, PBatch [], q) (db, PIdle, q)"
| poll_begin:
    "pollerBegin config elapsed now job rest db = (p', db') \<Longrightarrow>
     step config keccak256 (db, PBatch (job # rest), q) (db', p', q)"
| poll_resume:
    "pollerResume config keccak256 r attestedNow now job rest db = (p', db') \<Longrightarrow>
     step config keccak256 (db, PAwaiting job rest, q) (db', p', q)"
| submit_pick:
    "getOldestByStatus tie db Attested = Some job \<Longrightarrow>
     step config keccak256 (db, p, SIdle) (db, p, SEstimating job)"
| submit_estimated:
    "estimateDone config r now job db = (q', db') \<Longrightarrow>
     step config keccak256 (db, p, SEstimating job) (db', p, q')"
| submit_sent:
    "sendDone config r sNow now job db = (q', db') \<Longrightarrow>
     step config keccak256 (db, p, SSending job) (db', p, q')"
| submit_waited:
    "waitDone config w cNow now job txh db = (q', db') \<Longrightarrow>
     step config keccak256 (db, p, SWaiting job txh) (db', p, q')"


section \<open>Notions used in the statements and proofs\<close>

text \<open>\<open>n\<close> requests to \<^verbatim>\<open>POST /relay\<close> with the same body, one after the other.\<close>

fun postAll :: "RelayRequest option \<Rightarrow> string list \<Rightarrow> Store \<Rightarrow> Response list \<times> Store" where
  "postAll reqBody [] db = ([], db)"
| "postAll reqBody (now # nows) db =
     (case postRelay reqBody now db of
        (r, db1) \<Rightarrow> (case postAll reqBody nows db1 of (rs, db2) \<Rightarrow> (r # rs, db2)))"

text \<open>The number a string of decimal digits denotes.\<close>

definition decimalValue :: "string \<Rightarrow> nat" where
  "decimalValue s = foldl (\<lambda>acc c. 10 * acc + (of_char c - 48)) 0 s"

text \<open>The outcome and the status stored in the row of a key, if the table has the row.\<close>

definition outcomeOf :: "Store \<Rightarrow> string \<Rightarrow> Outcome option option" where
  "outcomeOf db h = map_option outcome (getJob db h)"

definition statusOf :: "Store \<Rightarrow> string \<Rightarrow> RelayStatus option" where
  "statusOf db h = map_option status (getJob db h)"

text \<open>
  The invariant of the running process: keys are unique, an outcome is stored in confirmed
  rows only, the rows the poller holds snapshots of are pending or polling, and the row the
  submitter works on is attested before the broadcast and submitted after it.
\<close>

fun pollerJobs :: "PollerState \<Rightarrow> RelayJob list" where
  "pollerJobs PIdle = []"
| "pollerJobs (PBatch js) = js"
| "pollerJobs (PAwaiting job rest) = job # rest"

fun submitterHolds :: "SubmitterState \<Rightarrow> Store \<Rightarrow> bool" where
  "submitterHolds SIdle db = True"
| "submitterHolds (SEstimating job) db = (statusOf db (txHash job) = Some Attested)"
| "submitterHolds (SSending job) db = (statusOf db (txHash job) = Some Attested)"
| "submitterHolds (SWaiting job txh) db = (statusOf db (txHash job) = Some Submitted)"

definition consistent :: "Process \<Rightarrow> bool" where
  "consistent s =
     (case s of (db, p, q) \<Rightarrow>
        distinct (map txHash db) \<and>
        (\<forall>j\<in>set db. outcome j \<noteq> None \<longrightarrow> status j = Confirmed) \<and>
        distinct (map txHash (pollerJobs p)) \<and>
        (\<forall>job\<in>set (pollerJobs p).
            statusOf db (txHash job) = Some Pending \<or> statusOf db (txHash job) = Some Polling) \<and>
        submitterHolds q db)"

text \<open>The submitter is not waiting for the receipt of the job with key \<open>h\<close>.\<close>

definition notAwaited :: "SubmitterState \<Rightarrow> string \<Rightarrow> bool" where
  "notAwaited q h = (case q of SWaiting job txh \<Rightarrow> txHash job \<noteq> h | _ \<Rightarrow> True)"

section \<open>Example data\<close>

definition exRelayedLog :: Log where
  "exRelayedLog = \<lparr> topics = [RELAYED_TOPIC0, ''0x0000000000000000000000000000000000000000000000000000000000000003''] \<rparr>"

definition exFallbackLog :: Log where
  "exFallbackLog = \<lparr> topics = [FALLBACK_TRIGGERED_TOPIC0] \<rparr>"

definition exRecoveredLog :: Log where
  "exRecoveredLog = \<lparr> topics = [RECOVERED_FROM_CONSUMED_NONCE_TOPIC0] \<rparr>"

definition exRouter :: string where
  "exRouter = ''0x1111111111111111111111111111111111111111''"

definition exRouterBytes32 :: string where
  "exRouterBytes32 = ''0x0000000000000000000000001111111111111111111111111111111111111111''"

definition exConfig :: Config where
  "exConfig = \<lparr> routerAddress = exRouter, routerBytes32 = exRouterBytes32,
                 attestationTimeoutMs = 1800000, maxRetries = 3 \<rparr>"

text \<open>
  A message of 248 bytes for domain 0 whose destinationCaller and mintRecipient are the
  router and whose amount is 1000000; the same with an open destinationCaller; one with a
  foreign destinationCaller; one for domain 1 with a foreign destinationCaller; and one of
  247 bytes.
\<close>

definition exMessage :: "8 word list" where
  "exMessage = replicate 120 0 @ replicate 20 17 @ replicate 56 0 @ replicate 20 17
               @ replicate 29 0 @ [15, 66, 64]"

definition exOpenCallerMessage :: "8 word list" where
  "exOpenCallerMessage = replicate 196 0 @ replicate 20 17 @ replicate 29 0 @ [15, 66, 64]"

definition exBadCallerMessage :: "8 word list" where
  "exBadCallerMessage = replicate 108 0 @ replicate 32 34 @ replicate 56 0 @ replicate 20 17
                        @ replicate 29 0 @ [15, 66, 64]"

definition exBadDomainMessage :: "8 word list" where
  "exBadDomainMessage = replicate 11 0 @ [1] @ replicate 96 0 @ replicate 32 34 @ replicate 108 0"

definition exShortMessage :: "8 word list" where
  "exShortMessage = replicate 247 0"

text \<open>
  The router address of the examples has no letter, so its checksum form is the address
  itself whatever the hash; \<open>exHash\<close> stands for Keccak-256 there.
\<close>

definition exHash :: "8 word list \<Rightarrow> 8 word list" where
  "exHash bs = replicate 32 0"


definition exTxHash :: string where
  "exTxHash = ''0xBBBBbbbbbbbbbbbbbbbbbbbbbbbbbbbbbbbbbbbbbbbbbbbbbbbbbbbbbbbbbbbb''"

definition exTxHashLower :: string where
  "exTxHashLower = ''0xbbbbbbbbbbbbbbbbbbbbbbbbbbbbbbbbbbbbbbbbbbbbbbbbbbbbbbbbbbbbbbbb''"

definition exDestTx :: string where
  "exDestTx = ''0xcdcdcdcdcdcdcdcdcdcdcdcdcdcdcdcdcdcdcdcdcdcdcdcdcdcdcdcdcdcdcdcd''"

definition exRequest :: RelayRequest where
  "exRequest = \<lparr> req_sourceDomain = JNum 3, req_txHash = JStr exTxHash \<rparr>"



definition exT0 :: string where "exT0 = ''2025-01-15T10:30:00.000Z''"
definition exT1 :: string where "exT1 = ''2025-01-15T10:30:02.000Z''"
definition exT2 :: string where "exT2 = ''2025-01-15T10:30:08.000Z''"
definition exT3 :: string where "exT3 = ''2025-01-15T10:30:14.000Z''"
definition exT4 :: string where "exT4 = ''2025-01-15T10:30:30.000Z''"


definition exPendingJob :: RelayJob where
  "exPendingJob = newJob exTxHashLower 3 exT0"

definition exPollingJob :: RelayJob where
  "exPollingJob = exPendingJob \<lparr> status := Polling, updatedAt := exT1 \<rparr>"

definition exAttestedJob :: RelayJob where
  "exAttestedJob =
     exPollingJob \<lparr> attestedMessage := Some (hexlify exMessage), attestation := Some ''0xabcdef'',
                    irisNonce := Some ''42'', mintRecipient := Some exRouter,
                    destinationDomain := Some 0, amount := Some ''1000000'',
                    status := Attested, pollAttempts := 1, attestedAt := Some exT2,
                    updatedAt := exT2 \<rparr>"

definition exSubmittedJob :: RelayJob where
  "exSubmittedJob =
     exAttestedJob \<lparr> ethTxHash := Some exDestTx, status := Submitted, submittedAt := Some exT3,
                     updatedAt := exT3 \<rparr>"

definition exForwardedJob :: RelayJob where
  "exForwardedJob =
     exSubmittedJob \<lparr> ethBlockNumber := Some 19000000, status := Confirmed,
                      outcome := Some Forwarded, confirmedAt := Some exT4, updatedAt := exT4 \<rparr>"

definition exUnknownJob :: RelayJob where
  "exUnknownJob =
     exSubmittedJob \<lparr> ethBlockNumber := Some 19000000, status := Confirmed,
                      outcome := None, confirmedAt := Some exT4, updatedAt := exT4 \<rparr>"

definition exStrandedJob :: RelayJob where
  "exStrandedJob =
     exSubmittedJob \<lparr> error := Some (''Tx reverted: '' @ exDestTx), retryCount := 1,
                      updatedAt := exT4 \<rparr>"

definition exReceipt :: TransactionReceipt where
  "exReceipt = \<lparr> receiptStatus = Some 1, logs = [exRecoveredLog, exRelayedLog],
                  blockNumber = 19000000 \<rparr>"

definition exReceiptNoEvent :: TransactionReceipt where
  "exReceiptNoEvent = \<lparr> receiptStatus = Some 1, logs = [], blockNumber = 19000000 \<rparr>"

definition exRevertedReceipt :: TransactionReceipt where
  "exRevertedReceipt = \<lparr> receiptStatus = Some 0, logs = [], blockNumber = 19000000 \<rparr>"

text \<open>
  Three answers of the chain to one iteration of the submitter: a receipt with a Relayed
  log, a receipt without any known event, and a receipt of a reverted transaction.
\<close>

definition exEnv :: ChainEnv where
  "exEnv = \<lparr> estimateGasResult = Inr 250000, sendResult = Inr exDestTx,
              waitResult = Inr (Some exReceipt), submittedNow = exT3,
              submittedUpdateNow = exT3, confirmedNow = exT4, finalUpdateNow = exT4 \<rparr>"

definition exEnvNoEvent :: ChainEnv where
  "exEnvNoEvent = exEnv \<lparr> waitResult := Inr (Some exReceiptNoEvent) \<rparr>"

definition exEnvReverted :: ChainEnv where
  "exEnvReverted = exEnv \<lparr> waitResult := Inr (Some exRevertedReceipt) \<rparr>"

section \<open>Store and process invariant\<close>

lemma applyUpdates_sel [simp]:
  "txHash (applyUpdates u now j) = txHash j"
  "status (applyUpdates u now j) = setField (u_status u) (status j)"
  "outcome (applyUpdates u now j) = setField (u_outcome u) (outcome j)"
  by (simp_all add: applyUpdates_def)

lemma setField_simps [simp]: "setField None x = x" "setField (Some v) x = v"
  by (simp_all add: setField_def)

lemma updateJob_keys [simp]: "map txHash (updateJob db now h u) = map txHash db"
  by (induction db) (simp_all add: updateJob_def)

lemma in_updateJob:
  "j' \<in> set (updateJob db now h u) \<longleftrightarrow>
     (\<exists>j\<in>set db. j' = (if txHash j = h then applyUpdates u now j else j))"
  unfolding updateJob_def set_map image_iff by (rule refl)

lemma set_orderByCreatedAt [simp]: "set (orderByCreatedAt tie xs) = set xs"
  by (simp add: orderByCreatedAt_def)

lemma orderByCreatedAt_empty [simp]: "orderByCreatedAt tie [] = []"
  by (simp add: orderByCreatedAt_def)

lemma orderByCreatedAt_Nil [simp]: "orderByCreatedAt tie xs = [] \<longleftrightarrow> xs = []"
  by (metis set_orderByCreatedAt set_empty)

lemma distinct_map_orderByCreatedAt:
  "distinct (map f (orderByCreatedAt tie xs)) = distinct (map f xs)"
  by (simp add: distinct_map orderByCreatedAt_def)

lemma getOldestByStatus_Some:
  assumes "getOldestByStatus tie db st = Some job"
  shows "job \<in> set db \<and> status job = st"
proof -
  from assms obtain js where "orderByCreatedAt tie (filter (\<lambda>j. status j = st) db) = job # js"
    by (auto simp: getOldestByStatus_def split: list.splits)
  then have "job \<in> set (orderByCreatedAt tie (filter (\<lambda>j. status j = st) db))" by simp
  then show ?thesis by simp
qed

lemma getOldestByStatus_None:
  "getOldestByStatus tie db st = None \<longleftrightarrow> (\<forall>j\<in>set db. status j \<noteq> st)"
proof -
  have "getOldestByStatus tie db st = None \<longleftrightarrow> orderByCreatedAt tie (filter (\<lambda>j. status j = st) db) = []"
    by (cases "orderByCreatedAt tie (filter (\<lambda>j. status j = st) db)")
       (simp_all add: getOldestByStatus_def)
  also have "\<dots> \<longleftrightarrow> (\<forall>j\<in>set db. status j \<noteq> st)"
    by (simp add: filter_empty_conv)
  finally show ?thesis .
qed

lemma distinct_map_sort_key:
  "distinct (map f (sort_key g xs)) = distinct (map f xs)"
  by (simp add: distinct_map)

lemma distinct_map_take: "distinct (map f xs) \<Longrightarrow> distinct (map f (take n xs))"
  by (simp add: take_map [symmetric] distinct_take)

lemma getJobsByStatus_distinct:
  "distinct (map txHash db) \<Longrightarrow> distinct (map txHash (getJobsByStatus tie db sts n))"
  unfolding getJobsByStatus_def
  by (intro distinct_map_take) (simp add: distinct_map_orderByCreatedAt distinct_map_filter)

lemma getJobsByStatus_set:
  "job \<in> set (getJobsByStatus tie db sts n) \<Longrightarrow> job \<in> set db \<and> status job \<in> set sts"
  unfolding getJobsByStatus_def by (auto dest: in_set_takeD)

lemma statusOf_update:
  "statusOf (updateJob db now h u) h' =
     (if h' = h then map_option (setField (u_status u)) (statusOf db h) else statusOf db h')"
  by (induction db) (auto simp: statusOf_def getJob_def updateJob_def)

lemma statusOf_append:
  "statusOf (db @ [j]) h =
     (case statusOf db h of Some st \<Rightarrow> Some st
      | None \<Rightarrow> if txHash j = h then Some (status j) else None)"
  by (induction db) (auto simp: statusOf_def getJob_def)

lemma getJob_of_row:
  "distinct (map txHash db) \<Longrightarrow> j \<in> set db \<Longrightarrow> getJob db (txHash j) = Some j"
  by (induction db) (auto simp: getJob_def)

lemma statusOf_of_row:
  "distinct (map txHash db) \<Longrightarrow> j \<in> set db \<Longrightarrow> statusOf db (txHash j) = Some (status j)"
  by (simp add: statusOf_def getJob_of_row)

lemma getJob_None: "getJob db h = None \<longleftrightarrow> h \<notin> set (map txHash db)"
  by (auto simp: getJob_def find_None_iff)

lemma outcome_update:
  assumes d: "distinct (map txHash db)"
    and o: "\<forall>j\<in>set db. outcome j \<noteq> None \<longrightarrow> status j = Confirmed"
    and s: "statusOf db h = Some st"
    and u: "(u_outcome u = None \<and> st \<noteq> Confirmed) \<or> u_status u = Some Confirmed"
  shows "\<forall>j\<in>set (updateJob db now h u). outcome j \<noteq> None \<longrightarrow> status j = Confirmed"
proof
  fix j' assume "j' \<in> set (updateJob db now h u)"
  then obtain j where j: "j \<in> set db" and j': "j' = (if txHash j = h then applyUpdates u now j else j)"
    by (auto simp: in_updateJob)
  show "outcome j' \<noteq> None \<longrightarrow> status j' = Confirmed"
  proof (cases "txHash j = h")
    case False
    with j j' o show ?thesis by simp
  next
    case True
    with d j s have st: "status j = st" by (auto simp: statusOf_of_row)
    from u show ?thesis
    proof
      assume a: "u_outcome u = None \<and> st \<noteq> Confirmed"
      with o j st have "outcome j = None" by auto
      with True j' a show ?thesis by simp
    next
      assume "u_status u = Some Confirmed"
      with True j' show ?thesis by simp
    qed
  qed
qed

lemma postRelay_store:
  "snd (postRelay reqBody now db) = db \<or>
   (\<exists>h d. getJob db h = None \<and> snd (postRelay reqBody now db) = db @ [newJob h d now])"
  by (auto simp: postRelay_def createJob_def Let_def split: JsValue.splits option.splits sum.splits)

lemma same_key_same_row:
  "distinct (map txHash db) \<Longrightarrow> j \<in> set db \<Longrightarrow> j' \<in> set db \<Longrightarrow> txHash j = txHash j' \<Longrightarrow> j = j'"
  by (meson distinct_map inj_onD)



lemma update_consistent:
  assumes c: "consistent (db, p, q)"
    and s: "statusOf db h = Some st"
    and u: "(u_outcome u = None \<and> st \<noteq> Confirmed) \<or> u_status u = Some Confirmed"
    and p3: "distinct (map txHash (pollerJobs p'))"
    and p4: "\<forall>job\<in>set (pollerJobs p').
               (txHash job = h \<and> (setField (u_status u) st = Pending \<or> setField (u_status u) st = Polling))
             \<or> (txHash job \<noteq> h \<and> (statusOf db (txHash job) = Some Pending \<or> statusOf db (txHash job) = Some Polling))"
    and q5: "submitterHolds q' (updateJob db now h u)"
  shows "consistent (updateJob db now h u, p', q')"
proof -
  from c have d: "distinct (map txHash db)"
    and o: "\<forall>j\<in>set db. outcome j \<noteq> None \<longrightarrow> status j = Confirmed"
    by (simp_all add: consistent_def)
  have o': "\<forall>j\<in>set (updateJob db now h u). outcome j \<noteq> None \<longrightarrow> status j = Confirmed"
    by (rule outcome_update [OF d o s u])
  have p4': "\<forall>job\<in>set (pollerJobs p').
      statusOf (updateJob db now h u) (txHash job) = Some Pending \<or>
      statusOf (updateJob db now h u) (txHash job) = Some Polling"
    using p4 s by (auto simp: statusOf_update)
  from d o' p3 p4' q5 show ?thesis by (simp add: consistent_def)
qed

lemma failure_consistent:
  assumes c: "consistent (db, p, q)"
    and s: "statusOf db (txHash job) = Some Attested \<or> statusOf db (txHash job) = Some Submitted"
  shows "consistent (onSubmissionFailure config job message now db, p, SIdle)"
proof -
  from c have p3: "distinct (map txHash (pollerJobs p))"
    and p4: "\<forall>j\<in>set (pollerJobs p). statusOf db (txHash j) = Some Pending \<or> statusOf db (txHash j) = Some Polling"
    by (simp_all add: consistent_def)
  from s obtain st where st: "statusOf db (txHash job) = Some st" "st = Attested \<or> st = Submitted"
    by auto
  have p4': "\<And>u. \<forall>j\<in>set (pollerJobs p).
               (txHash j = txHash job \<and> (setField (u_status u) st = Pending \<or> setField (u_status u) st = Polling))
             \<or> (txHash j \<noteq> txHash job \<and> (statusOf db (txHash j) = Some Pending \<or> statusOf db (txHash j) = Some Polling))"
    using p4 st by auto
  have "\<And>u. u_outcome u = None \<Longrightarrow> consistent (updateJob db now (txHash job) u, p, SIdle)"
    by (rule update_consistent [OF c st(1) _ p3 p4']) (use st in auto)
  then show ?thesis
    by (simp add: onSubmissionFailure_def noUpdates_def Let_def)
qed

lemma holds_weaken:
  "consistent (db, p, q) \<Longrightarrow> submitterHolds q' db \<Longrightarrow> consistent (db, p, q')"
  by (simp add: consistent_def)

lemma estimateDone_consistent:
  assumes c: "consistent (db, p, SEstimating job)" and e: "estimateDone config r now job db = (q', db')"
  shows "consistent (db', p, q')"
proof -
  from c have s: "statusOf db (txHash job) = Some Attested" by (simp add: consistent_def)
  show ?thesis
  proof (cases r)
    case (Inl err)
    with e have "db' = onSubmissionFailure config job (''Gas estimation failed: '' @ err) now db" "q' = SIdle"
      by (simp_all add: estimateDone_def)
    with failure_consistent [OF c] s show ?thesis by simp
  next
    case (Inr g)
    with e have "db' = db" "q' = SSending job" by (simp_all add: estimateDone_def)
    with holds_weaken [OF c] s show ?thesis by simp
  qed
qed

lemma markSubmitted_consistent:
  assumes c: "consistent (db, p, q)" and s: "statusOf db (txHash job) = Some Attested"
  shows "consistent (markSubmitted job txh sNow now db, p, SWaiting job txh)"
  unfolding markSubmitted_def
proof (rule update_consistent [OF c s])
  from c show "distinct (map txHash (pollerJobs p))" by (simp add: consistent_def)
  from c s show "\<forall>j\<in>set (pollerJobs p).
       txHash j = txHash job \<and>
       (setField (u_status (noUpdates\<lparr>u_ethTxHash := Some (Some txh), u_status := Some Submitted, u_submittedAt := Some (Some sNow)\<rparr>)) Attested = Pending \<or>
        setField (u_status (noUpdates\<lparr>u_ethTxHash := Some (Some txh), u_status := Some Submitted, u_submittedAt := Some (Some sNow)\<rparr>)) Attested = Polling) \<or>
       txHash j \<noteq> txHash job \<and> (statusOf db (txHash j) = Some Pending \<or> statusOf db (txHash j) = Some Polling)"
    by (auto simp: consistent_def)
  from s show "submitterHolds (SWaiting job txh)
     (updateJob db now (txHash job) (noUpdates\<lparr>u_ethTxHash := Some (Some txh), u_status := Some Submitted, u_submittedAt := Some (Some sNow)\<rparr>))"
    by (simp add: statusOf_update)
qed (simp add: noUpdates_def)

lemma markConfirmed_consistent:
  assumes c: "consistent (db, p, q)" and s: "statusOf db (txHash job) = Some Submitted"
  shows "consistent (markConfirmed job receipt cNow now db, p, SIdle)"
  unfolding markConfirmed_def
proof (rule update_consistent [OF c s])
  from c show "distinct (map txHash (pollerJobs p))" by (simp add: consistent_def)
  from c s show "\<forall>j\<in>set (pollerJobs p).
       txHash j = txHash job \<and>
       (setField (u_status (noUpdates\<lparr>u_ethBlockNumber := Some (Some (blockNumber receipt)),
                    u_confirmedAt := Some (Some cNow),
                    u_outcome := Some (determineOutcome (logs receipt)),
                    u_status := Some Confirmed\<rparr>)) Submitted = Pending \<or>
        setField (u_status (noUpdates\<lparr>u_ethBlockNumber := Some (Some (blockNumber receipt)),
                    u_confirmedAt := Some (Some cNow),
                    u_outcome := Some (determineOutcome (logs receipt)),
                    u_status := Some Confirmed\<rparr>)) Submitted = Polling) \<or>
       txHash j \<noteq> txHash job \<and> (statusOf db (txHash j) = Some Pending \<or> statusOf db (txHash j) = Some Polling)"
    by (auto simp: consistent_def)
qed (simp_all add: noUpdates_def)

lemma sendDone_consistent:
  assumes c: "consistent (db, p, SSending job)" and e: "sendDone config r sNow now job db = (q', db')"
  shows "consistent (db', p, q')"
proof -
  from c have s: "statusOf db (txHash job) = Some Attested" by (simp add: consistent_def)
  show ?thesis
  proof (cases r)
    case (Inl err)
    with e have "db' = onSubmissionFailure config job err now db" "q' = SIdle"
      by (simp_all add: sendDone_def)
    with failure_consistent [OF c] s show ?thesis by simp
  next
    case (Inr txh)
    with e have "db' = markSubmitted job txh sNow now db" "q' = SWaiting job txh"
      by (simp_all add: sendDone_def)
    with markSubmitted_consistent [OF c s] show ?thesis by simp
  qed
qed

lemma waitDone_consistent:
  assumes c: "consistent (db, p, SWaiting job txh)" and e: "waitDone config w cNow now job txh db = (q', db')"
  shows "consistent (db', p, q')"
proof -
  from c have s: "statusOf db (txHash job) = Some Submitted" by (simp add: consistent_def)
  show ?thesis
  proof (cases "awaitReceipt txh w")
    case (Inl err)
    with e have "db' = onSubmissionFailure config job err now db" "q' = SIdle"
      by (simp_all add: waitDone_def)
    with failure_consistent [OF c] s show ?thesis by simp
  next
    case (Inr receipt)
    with e have "db' = markConfirmed job receipt cNow now db" "q' = SIdle"
      by (simp_all add: waitDone_def)
    with markConfirmed_consistent [OF c s] show ?thesis by simp
  qed
qed



lemma holds_other_update:
  assumes "submitterHolds q db" "statusOf db h = Some Pending \<or> statusOf db h = Some Polling"
  shows "submitterHolds q (updateJob db now h u)"
  using assms by (cases q) (auto simp: statusOf_update)

lemma poller_update_consistent:
  assumes c: "consistent (db, p, q)" and hd: "pollerJobs p = job # rest"
    and u: "u_outcome u = None"
    and p': "pollerJobs p' = rest \<or>
             (pollerJobs p' = job # rest \<and> (u_status u = None \<or> u_status u = Some Polling))"
  shows "consistent (updateJob db now (txHash job) u, p', q)"
proof -
  from c hd have s: "statusOf db (txHash job) = Some Pending \<or> statusOf db (txHash job) = Some Polling"
    and d: "distinct (map txHash (job # rest))"
    and r: "\<forall>j\<in>set rest. statusOf db (txHash j) = Some Pending \<or> statusOf db (txHash j) = Some Polling"
    and q: "submitterHolds q db"
    by (simp_all add: consistent_def)
  from s obtain st where st: "statusOf db (txHash job) = Some st" "st = Pending \<or> st = Polling"
    by auto
  show ?thesis
  proof (rule update_consistent [OF c st(1)])
    from u st show "u_outcome u = None \<and> st \<noteq> Confirmed \<or> u_status u = Some Confirmed" by auto
    from d p' show "distinct (map txHash (pollerJobs p'))" by auto
    from q s show "submitterHolds q (updateJob db now (txHash job) u)" by (rule holds_other_update)
    show "\<forall>j\<in>set (pollerJobs p').
       txHash j = txHash job \<and> (setField (u_status u) st = Pending \<or> setField (u_status u) st = Polling) \<or>
       txHash j \<noteq> txHash job \<and> (statusOf db (txHash j) = Some Pending \<or> statusOf db (txHash j) = Some Polling)"
    proof
      fix j assume j: "j \<in> set (pollerJobs p')"
      show "txHash j = txHash job \<and> (setField (u_status u) st = Pending \<or> setField (u_status u) st = Polling) \<or>
        txHash j \<noteq> txHash job \<and> (statusOf db (txHash j) = Some Pending \<or> statusOf db (txHash j) = Some Polling)"
      proof (cases "j \<in> set rest")
        case True
        from d have "txHash job \<notin> txHash ` set rest" by simp
        with True have "txHash j \<noteq> txHash job" by (metis imageI)
        with True r show ?thesis by simp
      next
        case False
        with j p' have "j = job" "u_status u = None \<or> u_status u = Some Polling" by auto
        with st show ?thesis by auto
      qed
    qed
  qed
qed

lemma poller_skip_consistent:
  assumes c: "consistent (db, p, q)" and sub: "set (pollerJobs p') \<subseteq> set (pollerJobs p)"
    and d: "distinct (map txHash (pollerJobs p'))"
  shows "consistent (db, p', q)"
  using c sub d by (auto simp: consistent_def)

lemma pollerBegin_consistent:
  assumes c: "consistent (db, PBatch (job # rest), q)"
    and e: "pollerBegin config elapsed now job rest db = (p', db')"
  shows "consistent (db', p', q)"
proof -
  have hd: "pollerJobs (PBatch (job # rest)) = job # rest" by simp
  from c have d: "distinct (map txHash (job # rest))" by (simp add: consistent_def)
  note U = poller_update_consistent [OF c hd]
  have same: "consistent (db, PAwaiting job rest, q)"
    using c by (simp add: consistent_def)
  have rest: "consistent (db, PBatch rest, q)"
    using c by (simp add: consistent_def)
  consider (timed_out) "elapsed > attestationTimeoutMs config"
    | (first_poll) "\<not> elapsed > attestationTimeoutMs config" "status job = Pending"
    | (again) "\<not> elapsed > attestationTimeoutMs config" "status job \<noteq> Pending"
    by blast
  then show ?thesis
  proof cases
    case timed_out
    with e have "p' = PBatch rest" "db' = updateJob db now (txHash job)
              (noUpdates \<lparr> u_status := Some Failed, u_error := Some (Some ''attestation_timeout'') \<rparr>)"
      by (simp_all add: pollerBegin_def)
    with U [of _ "PBatch rest"] show ?thesis by (simp add: noUpdates_def)
  next
    case first_poll
    with e have "p' = PAwaiting job rest"
      "db' = updateJob db now (txHash job) (noUpdates \<lparr> u_status := Some Polling \<rparr>)"
      by (simp_all add: pollerBegin_def)
    with U [of _ "PAwaiting job rest"] show ?thesis by (simp add: noUpdates_def)
  next
    case again
    with e have "p' = PAwaiting job rest" "db' = db" by (simp_all add: pollerBegin_def)
    with same show ?thesis by simp
  qed
qed

lemma pollerResume_consistent:
  assumes c: "consistent (db, PAwaiting job rest, q)"
    and e: "pollerResume config keccak r attestedNow now job rest db = (p', db')"
  shows "consistent (db', p', q)"
proof -
  have hd: "pollerJobs (PAwaiting job rest) = job # rest" by simp
  from c have d: "distinct (map txHash rest)" by (simp add: consistent_def)
  note U = poller_update_consistent [OF c hd]
  show ?thesis
  proof (cases "pollerTry config keccak r attestedNow now job db")
    case (Inl err)
    with e have e': "db' = db" "p' = PIdle \<or> p' = PBatch rest"
      by (auto simp: pollerResume_def split: if_splits)
    have "consistent (db, PIdle, q)" "consistent (db, PBatch rest, q)"
      using c by (simp_all add: consistent_def)
    with e' show ?thesis by auto
  next
    case (Inr db1)
    with e have e': "db' = db1" "p' = PBatch rest" by (simp_all add: pollerResume_def)
    from Inr obtain u where "db1 = updateJob db now (txHash job) u" "u_outcome u = None"
      by (auto simp: pollerTry_def noUpdates_def split: sum.splits option.splits if_splits prod.splits)
    with U [of u "PBatch rest"] e' show ?thesis by simp
  qed
qed

lemma post_consistent:
  assumes c: "consistent (db, p, q)"
  shows "consistent (snd (postRelay reqBody now db), p, q)"
proof -
  from postRelay_store [of reqBody now db] show ?thesis
  proof
    assume "snd (postRelay reqBody now db) = db" with c show ?thesis by simp
  next
    assume "\<exists>h d. getJob db h = None \<and> snd (postRelay reqBody now db) = db @ [newJob h d now]"
    then obtain h d where n: "getJob db h = None" and e: "snd (postRelay reqBody now db) = db @ [newJob h d now]"
      by blast
    have k: "\<And>h'. statusOf db h' = Some st \<Longrightarrow> statusOf (db @ [newJob h d now]) h' = Some st" for st
      by (simp add: statusOf_append)
    have "submitterHolds q (db @ [newJob h d now])"
      using c by (cases q) (auto simp: consistent_def k)
    moreover have "distinct (map txHash (db @ [newJob h d now]))"
      using c n by (auto simp: consistent_def getJob_None newJob_def)
    moreover have "\<forall>j\<in>set (db @ [newJob h d now]). outcome j \<noteq> None \<longrightarrow> status j = Confirmed"
      using c by (auto simp: consistent_def newJob_def)
    ultimately show ?thesis using c e by (auto simp: consistent_def k)
  qed
qed

lemma fetch_consistent:
  assumes c: "consistent (db, PIdle, q)"
  shows "consistent (db, PBatch (getJobsByStatus tie db [Pending, Polling] 20), q)"
proof -
  from c have d: "distinct (map txHash db)" by (simp add: consistent_def)
  have "\<forall>job\<in>set (getJobsByStatus tie db [Pending, Polling] 20).
          statusOf db (txHash job) = Some Pending \<or> statusOf db (txHash job) = Some Polling"
    using getJobsByStatus_set [of _ tie db "[Pending, Polling]" 20] statusOf_of_row [OF d] by auto
  with c getJobsByStatus_distinct [OF d] show ?thesis by (simp add: consistent_def)
qed

lemma pick_consistent:
  assumes c: "consistent (db, p, SIdle)" and g: "getOldestByStatus tie db Attested = Some job"
  shows "consistent (db, p, SEstimating job)"
proof -
  from c have d: "distinct (map txHash db)" by (simp add: consistent_def)
  from getOldestByStatus_Some [OF g] statusOf_of_row [OF d]
  have "statusOf db (txHash job) = Some Attested" by auto
  with c show ?thesis by (simp add: consistent_def)
qed

lemma step_consistent:
  assumes "step config keccak s s'" "consistent s"
  shows "consistent s'"
  using assms
proof (induction rule: step.induct)
  case post then show ?case by (rule post_consistent)
next
  case restart then show ?case by (simp add: consistent_def)
next
  case poll_fetch then show ?case by (rule fetch_consistent)
next
  case poll_end then show ?case by (simp add: consistent_def)
next
  case poll_begin
  then show ?case using pollerBegin_consistent by blast
next
  case poll_resume
  then show ?case using pollerResume_consistent by blast
next
  case submit_pick then show ?case using pick_consistent by blast
next
  case submit_estimated
  then show ?case using estimateDone_consistent by blast
next
  case submit_sent
  then show ?case using sendDone_consistent by blast
next
  case submit_waited
  then show ?case using waitDone_consistent by blast
qed


section \<open>Hex strings and the validator\<close>

lemmas char_defs = lowerChar_def upperChar_def upperLetters_def lowerLetters_def

lemma below_16: "n < 16 \<longleftrightarrow> n \<in> set [0..<16]"
  by simp

lemma hexValue_hexDigit: "n < 16 \<Longrightarrow> hexValue (hexDigit n) = Some n"
proof -
  have "\<forall>n\<in>set [0..<16]. hexValue (hexDigit n) = Some n" by code_simp
  then show "n < 16 \<Longrightarrow> hexValue (hexDigit n) = Some n" unfolding below_16 by blast
qed

lemma lowerChar_hexDigit: "n < 16 \<Longrightarrow> lowerChar (hexDigit n) = hexDigit n"
proof -
  have "\<forall>n\<in>set [0..<16]. lowerChar (hexDigit n) = hexDigit n" by code_simp
  then show "n < 16 \<Longrightarrow> lowerChar (hexDigit n) = hexDigit n" unfolding below_16 by blast
qed

lemma lowerChar_upperChar: "lowerChar (upperChar c) = lowerChar c"
  by (simp add: char_defs)

lemma lowerChar_idem: "lowerChar (lowerChar c) = lowerChar c"
  by (simp add: char_defs)

lemma byte_nibbles: "unat (b :: 8 word) div 16 < 16" "unat b mod 16 < 16"
proof -
  have "unat b < 256" using unsigned_less [of b, where 'a = nat] by simp
  then show "unat b div 16 < 16" by simp
  show "unat b mod 16 < 16" by simp
qed

lemma byte_of_nibbles: "word_of_nat (16 * (unat (b :: 8 word) div 16) + unat b mod 16) = b"
  by simp

lemma parse_hexByte: "parseHexPairs (hexByte b @ cs) = map_option ((#) b) (parseHexPairs cs)"
  by (cases "parseHexPairs cs")
     (simp_all add: hexByte_def hexValue_hexDigit byte_nibbles)

lemma parse_hexBytes: "parseHexPairs (concat (map hexByte bs)) = Some bs"
  by (induction bs) (simp_all add: parse_hexByte)

lemma getBytes_hexlify: "getBytes (hexlify bs) = Some bs"
  by (simp add: getBytes_def hexlify_def parse_hexBytes)

lemma hexlify_inj: "hexlify a = hexlify b \<Longrightarrow> a = b"
  by (metis getBytes_hexlify option.inject)

lemma toLowerCase_hexlify: "toLowerCase (hexlify bs) = hexlify bs"
proof -
  have "map lowerChar (concat (map hexByte bs)) = concat (map hexByte bs)"
    by (induction bs) (simp_all add: hexByte_def lowerChar_hexDigit byte_nibbles)
  then show ?thesis by (simp add: toLowerCase_def hexlify_def char_defs)
qed

lemma length_hexBytes: "length (concat (map hexByte bs)) = 2 * length bs"
  by (induction bs) (simp_all add: hexByte_def)

lemma drop_hexBytes: "drop (2 * n) (concat (map hexByte bs)) = concat (map hexByte (drop n bs))"
proof (induction bs arbitrary: n)
  case Nil then show ?case by simp
next
  case (Cons b bs)
  show ?case
  proof (cases n)
    case 0 then show ?thesis by simp
  next
    case (Suc m)
    with Cons.IH [of m] show ?thesis by (simp add: hexByte_def)
  qed
qed

lemma lastChars_hexlify:
  assumes "length bs = 32"
  shows "''0x'' @ lastChars 40 (hexlify bs) = hexlify (drop 12 bs)"
proof -
  have "length (hexlify bs) = 66" using assms by (simp add: hexlify_def length_hexBytes)
  then have "lastChars 40 (hexlify bs) = drop 26 (hexlify bs)" by (simp add: lastChars_def)
  also have "\<dots> = drop (2 * 12) (concat (map hexByte bs))" by (simp add: hexlify_def)
  also have "\<dots> = concat (map hexByte (drop 12 bs))" by (rule drop_hexBytes)
  finally show ?thesis by (simp add: hexlify_def)
qed

lemma hexBytes_zero: "concat (map hexByte (replicate n 0)) = replicate (2 * n) CHR ''0''"
  by (induction n) (simp_all add: hexByte_def hexDigit_def)

lemma BYTES32_ZERO_hexlify: "BYTES32_ZERO = hexlify (replicate 32 0)"
proof -
  have "replicate 64 CHR ''0'' = ''0000000000000000000000000000000000000000000000000000000000000000''"
    by code_simp
  then show ?thesis
    using hexBytes_zero [of 32] by (simp add: BYTES32_ZERO_def hexlify_def)
qed

lemma hexlify_zero: "hexlify bs = BYTES32_ZERO \<longleftrightarrow> bs = replicate 32 0"
proof
  assume "hexlify bs = BYTES32_ZERO"
  then have "hexlify bs = hexlify (replicate 32 0)" by (simp only: BYTES32_ZERO_hexlify)
  then show "bs = replicate 32 0" by (rule hexlify_inj)
next
  assume "bs = replicate 32 0"
  then show "hexlify bs = BYTES32_ZERO" by (simp only: BYTES32_ZERO_hexlify)
qed

lemma lower_mask:
  "length ns = length xs \<Longrightarrow>
   map (lowerChar \<circ> (\<lambda>(i, c). if P i then upperChar c else c)) (zip ns xs) = map lowerChar xs"
  by (induction ns xs rule: list_induct2) (simp_all add: lowerChar_upperChar)

lemma toLowerCase_getAddress:
  "toLowerCase (getAddress keccak (''0x'' @ cs)) = ''0x'' @ toLowerCase cs"
proof -
  have l: "toLowerCase (''0x'' @ cs) = ''0x'' @ toLowerCase cs"
    by (simp add: toLowerCase_def char_defs)
  have x: "toLowerCase ''0x'' = ''0x''"
    by (simp add: toLowerCase_def char_defs)
  have "toLowerCase (getAddress keccak (''0x'' @ cs))
      = toLowerCase ''0x'' @ map (lowerChar \<circ> (\<lambda>(i, c). if 8 \<le> hashNibble
            (keccak (map (\<lambda>c. word_of_nat (of_char c)) (toLowerCase cs))) i then upperChar c else c))
          (zip [0..<length (toLowerCase cs)] (toLowerCase cs))"
    unfolding getAddress_def Let_def l by (simp add: toLowerCase_def)
  also have "\<dots> = ''0x'' @ map lowerChar (toLowerCase cs)"
    unfolding x by (subst lower_mask) simp_all
  also have "\<dots> = ''0x'' @ toLowerCase cs"
    by (simp add: toLowerCase_def lowerChar_idem)
  finally show ?thesis .
qed

lemma recipient_lower:
  assumes "248 \<le> length message"
  shows "toLowerCase (getAddress keccak (''0x'' @ lastChars 40 (hexlify (slice_arr 184 216 message))))
         = hexlify (slice_arr 196 216 message)"
proof -
  have len: "length (slice_arr 184 216 message) = 32" using assms by (simp add: slice_arr_def)
  have d: "drop 12 (slice_arr 184 216 message) = slice_arr 196 216 message"
    by (simp add: slice_arr_def drop_take)
  have "''0x'' @ lastChars 40 (hexlify (slice_arr 184 216 message)) = hexlify (slice_arr 196 216 message)"
    using lastChars_hexlify [OF len] d by simp
  then have "drop 2 (''0x'' @ lastChars 40 (hexlify (slice_arr 184 216 message)))
      = drop 2 (hexlify (slice_arr 196 216 message))" by (rule arg_cong)
  then have e: "lastChars 40 (hexlify (slice_arr 184 216 message)) = drop 2 (hexlify (slice_arr 196 216 message))"
    by simp
  have "toLowerCase (getAddress keccak (''0x'' @ lastChars 40 (hexlify (slice_arr 184 216 message))))
     = ''0x'' @ toLowerCase (drop 2 (hexlify (slice_arr 196 216 message)))"
    unfolding e by (rule toLowerCase_getAddress)
  also have "\<dots> = toLowerCase (hexlify (slice_arr 196 216 message))"
    by (simp add: hexlify_def toLowerCase_def char_defs)
  finally show ?thesis by (simp add: toLowerCase_hexlify)
qed

lemma digitChar_value: "n < 10 \<Longrightarrow> of_char (digitChar n) - 48 = n"
proof -
  have "\<forall>n\<in>set [0..<10]. of_char (digitChar n) - 48 = (n :: nat)" by code_simp
  then show "n < 10 \<Longrightarrow> of_char (digitChar n) - 48 = n" by simp
qed

lemma decimalValue_snoc: "decimalValue (s @ [c]) = 10 * decimalValue s + (of_char c - 48)"
  by (simp add: decimalValue_def)

lemma decimalValue_decimalString: "decimalValue (decimalString n) = n"
proof (induction n rule: decimalString.induct)
  case (1 n)
  show ?case
  proof (cases "n < 10")
    case True
    then show ?thesis
      by (subst decimalString.simps) (simp add: digitChar_value decimalValue_def)
  next
    case False
    have "decimalValue (decimalString n) = 10 * decimalValue (decimalString (n div 10)) + (of_char (digitChar (n mod 10)) - 48)"
      using False by (subst decimalString.simps) (simp add: decimalValue_snoc)
    also have "\<dots> = 10 * (n div 10) + n mod 10"
      using 1 False by (simp add: digitChar_value)
    finally show ?thesis by simp
  qed
qed

lemma bytesToNat_snoc: "bytesToNat (bs @ [b]) = bytesToNat bs * 256 + unat b"
  by (simp add: bytesToNat_def)

lemma bytesToNat_zeros: "bytesToNat (replicate n 0 @ bs) = bytesToNat bs"
proof -
  have "foldl (\<lambda>acc b. acc * 256 + unat b) 0 (replicate n (0 :: 8 word)) = 0"
    by (induction n) simp_all
  then show ?thesis by (simp add: bytesToNat_def)
qed

lemma bytesToNat_all_zero: "bytesToNat (replicate n 0) = 0"
  using bytesToNat_zeros [of n "[]"] by (simp add: bytesToNat_def)

lemma validate_short:
  "length message < 248 \<Longrightarrow>
   validateBytes keccak message routerAddr routerB = (rejected ''message too short'', [])"
  by (simp add: validateBytes_def)

lemma validate_domain:
  "248 \<le> length message \<Longrightarrow> bytesToNat (slice_arr 8 12 message) \<noteq> 0 \<Longrightarrow>
   validateBytes keccak message routerAddr routerB =
     (rejected (''destination domain '' @ decimalString (bytesToNat (slice_arr 8 12 message))
                @ '' != 0 (Ethereum)''), [])"
  by (simp add: validateBytes_def Let_def)

lemma validate_caller_rejected:
  assumes "248 \<le> length message" "bytesToNat (slice_arr 8 12 message) = 0"
    and "slice_arr 108 140 message \<noteq> replicate 32 0"
    and "hexlify (slice_arr 108 140 message) \<noteq> toLowerCase routerB"
  shows "validateBytes keccak message routerAddr routerB =
     (rejected (''destinationCaller '' @ hexlify (slice_arr 108 140 message) @ '' != router or zero''), [])"
  using assms by (simp add: validateBytes_def Let_def hexlify_zero toLowerCase_hexlify)

lemma validate_caller_accepted:
  assumes len: "248 \<le> length message" and dom: "bytesToNat (slice_arr 8 12 message) = 0"
    and caller: "slice_arr 108 140 message = replicate 32 0 \<or>
         hexlify (slice_arr 108 140 message) = toLowerCase routerB"
  shows "validateBytes keccak message routerAddr routerB =
     (if hexlify (slice_arr 196 216 message) \<noteq> toLowerCase routerAddr
      then rejected (''mintRecipient ''
             @ getAddress keccak (''0x'' @ lastChars 40 (hexlify (slice_arr 184 216 message)))
             @ '' != router '' @ routerAddr)
      else \<lparr> valid = True, reason = None,
             v_mintRecipient = Some (getAddress keccak (''0x'' @ lastChars 40 (hexlify (slice_arr 184 216 message)))),
             v_destinationDomain = Some 0,
             v_amount = Some (decimalString (bytesToNat (slice_arr 216 248 message))) \<rparr>,
      if slice_arr 108 140 message = replicate 32 0 then [zeroCallerWarning] else [])"
proof -
  have c: "\<not> (hexlify (slice_arr 108 140 message) \<noteq> BYTES32_ZERO \<and>
      toLowerCase (hexlify (slice_arr 108 140 message)) \<noteq> toLowerCase routerB)"
    using caller by (auto simp: hexlify_zero toLowerCase_hexlify)
  have l: "\<not> length message < 248" using len by simp
  have "validateBytes keccak message routerAddr routerB =
     (let warnings = (if hexlify (slice_arr 108 140 message) = BYTES32_ZERO then [zeroCallerWarning] else []);
          recipient = getAddress keccak (''0x'' @ lastChars 40 (hexlify (slice_arr 184 216 message)))
      in if toLowerCase recipient \<noteq> toLowerCase routerAddr
         then (rejected (''mintRecipient '' @ recipient @ '' != router '' @ routerAddr), warnings)
         else (\<lparr> valid = True, reason = None, v_mintRecipient = Some recipient,
                  v_destinationDomain = Some (int 0),
                  v_amount = Some (decimalString (bytesToNat (slice_arr 216 248 message))) \<rparr>,
               warnings))"
    by (simp only: validateBytes_def Let_def if_not_P [OF l] dom if_not_P [OF c]) simp
  moreover have "toLowerCase (getAddress keccak
        (CHR ''0'' # CHR ''x'' # lastChars 40 (hexlify (slice_arr 184 216 message))))
      = hexlify (slice_arr 196 216 message)"
    using recipient_lower [OF len, of keccak] by simp
  ultimately show ?thesis
    by (simp add: Let_def hexlify_zero)
qed

lemma recipient_hex:
  assumes "248 \<le> length message"
  shows "''0x'' @ lastChars 40 (hexlify (slice_arr 184 216 message)) = hexlify (slice_arr 196 216 message)"
proof -
  have len: "length (slice_arr 184 216 message) = 32" using assms by (simp add: slice_arr_def)
  have d: "drop 12 (slice_arr 184 216 message) = slice_arr 196 216 message"
    by (simp add: slice_arr_def drop_take)
  show ?thesis using lastChars_hexlify [OF len] d by simp
qed

lemma exMessage_fields:
  "length exMessage = 248"
  "slice_arr 8 12 exMessage = replicate 4 0"
  "slice_arr 108 140 exMessage = replicate 12 0 @ replicate 20 17"
  "slice_arr 196 216 exMessage = replicate 20 17"
  "slice_arr 216 248 exMessage = replicate 29 0 @ [15, 66, 64]"
  by (simp_all add: exMessage_def slice_arr_def)

section \<open>The message validator: claims\<close>

text \<open>
  Claim C6. A message shorter than 248 bytes is rejected with the reason
  \<^verbatim>\<open>message too short\<close>. A message of 248 bytes (or more) whose destinationDomain is 0,
  whose destinationCaller is zero or the router's bytes32 and whose mintRecipient holds the
  router's address in its low 20 bytes is accepted; the result carries the checksum form
  of that address, the domain 0 and the decimal digits of the big-endian number in bytes
  216 to 248.
\<close>

theorem validator_length_boundary:
  assumes "getBytes messageHex = Some message"
  shows "(length message < 248 \<longrightarrow>
            validateAttestedMessage keccak messageHex routerAddr routerB =
              Inr (rejected ''message too short'', []))
       \<and> (248 \<le> length message \<and> bytesToNat (slice_arr 8 12 message) = 0 \<and>
          (slice_arr 108 140 message = replicate 32 0 \<or>
           toLowerCase (hexlify (slice_arr 108 140 message)) = toLowerCase routerB) \<and>
          toLowerCase (hexlify (slice_arr 196 216 message)) = toLowerCase routerAddr \<longrightarrow>
            validateAttestedMessage keccak messageHex routerAddr routerB =
              Inr (\<lparr> valid = True, reason = None,
                     v_mintRecipient = Some (getAddress keccak (hexlify (slice_arr 196 216 message))),
                     v_destinationDomain = Some 0,
                     v_amount = Some (decimalString (bytesToNat (slice_arr 216 248 message))) \<rparr>,
                   if slice_arr 108 140 message = replicate 32 0 then [zeroCallerWarning] else [])
            \<and> decimalValue (decimalString (bytesToNat (slice_arr 216 248 message)))
                = bytesToNat (slice_arr 216 248 message))"
proof (intro conjI impI)
  assume "length message < 248"
  then show "validateAttestedMessage keccak messageHex routerAddr routerB =
              Inr (rejected ''message too short'', [])"
    using assms by (simp add: validateAttestedMessage_def validate_short)
next
  assume a: "248 \<le> length message \<and> bytesToNat (slice_arr 8 12 message) = 0 \<and>
          (slice_arr 108 140 message = replicate 32 0 \<or>
           toLowerCase (hexlify (slice_arr 108 140 message)) = toLowerCase routerB) \<and>
          toLowerCase (hexlify (slice_arr 196 216 message)) = toLowerCase routerAddr"
  then have len: "248 \<le> length message" and dom: "bytesToNat (slice_arr 8 12 message) = 0"
    and caller: "slice_arr 108 140 message = replicate 32 0 \<or>
         hexlify (slice_arr 108 140 message) = toLowerCase routerB"
    and rec: "hexlify (slice_arr 196 216 message) = toLowerCase routerAddr"
    by (simp_all add: toLowerCase_hexlify)
  show "validateAttestedMessage keccak messageHex routerAddr routerB =
              Inr (\<lparr> valid = True, reason = None,
                     v_mintRecipient = Some (getAddress keccak (hexlify (slice_arr 196 216 message))),
                     v_destinationDomain = Some 0,
                     v_amount = Some (decimalString (bytesToNat (slice_arr 216 248 message))) \<rparr>,
                   if slice_arr 108 140 message = replicate 32 0 then [zeroCallerWarning] else [])"
  proof -
    have h: "getAddress keccak (''0x'' @ lastChars 40 (hexlify (slice_arr 184 216 message)))
        = getAddress keccak (hexlify (slice_arr 196 216 message))"
      by (simp only: recipient_hex [OF len])
    have n: "\<not> hexlify (slice_arr 196 216 message) \<noteq> toLowerCase routerAddr"
      using rec by simp
    show ?thesis
      by (simp only: validateAttestedMessage_def assms option.case
          validate_caller_accepted [OF len dom caller] if_not_P [OF n] h)
  qed
  show "decimalValue (decimalString (bytesToNat (slice_arr 216 248 message)))
                = bytesToNat (slice_arr 216 248 message)"
    by (rule decimalValue_decimalString)
qed

text \<open>
  Claim C7, as amended. For a message of at least 248 bytes whose destinationDomain is 0:
  when bytes 108 to 140 are all zero or equal the router's bytes32 (compared as lower-case
  hex), validation goes on to the mintRecipient check, which alone decides the result, and
  the warning is logged exactly in the all-zero case; otherwise the message is rejected
  with the reason \<^verbatim>\<open>destinationCaller X != router or zero\<close>.
\<close>

theorem destination_caller_rule:
  assumes "getBytes messageHex = Some message" and "248 \<le> length message"
    and "bytesToNat (slice_arr 8 12 message) = 0"
  shows "(slice_arr 108 140 message = replicate 32 0 \<or>
          toLowerCase (hexlify (slice_arr 108 140 message)) = toLowerCase routerB \<longrightarrow>
            (\<exists>v. validateAttestedMessage keccak messageHex routerAddr routerB =
                   Inr (v, if slice_arr 108 140 message = replicate 32 0 then [zeroCallerWarning] else [])
                 \<and> valid v = (toLowerCase (hexlify (slice_arr 196 216 message)) = toLowerCase routerAddr)
                 \<and> reason v \<noteq> Some (''destinationCaller '' @ hexlify (slice_arr 108 140 message)
                                       @ '' != router or zero'')))
       \<and> (slice_arr 108 140 message \<noteq> replicate 32 0 \<and>
          toLowerCase (hexlify (slice_arr 108 140 message)) \<noteq> toLowerCase routerB \<longrightarrow>
            validateAttestedMessage keccak messageHex routerAddr routerB =
              Inr (rejected (''destinationCaller '' @ hexlify (slice_arr 108 140 message)
                             @ '' != router or zero''), []))"
proof (intro conjI impI)
  assume "slice_arr 108 140 message = replicate 32 0 \<or>
          toLowerCase (hexlify (slice_arr 108 140 message)) = toLowerCase routerB"
  then have caller: "slice_arr 108 140 message = replicate 32 0 \<or>
         hexlify (slice_arr 108 140 message) = toLowerCase routerB"
    by (simp add: toLowerCase_hexlify)
  show "\<exists>v. validateAttestedMessage keccak messageHex routerAddr routerB =
                   Inr (v, if slice_arr 108 140 message = replicate 32 0 then [zeroCallerWarning] else [])
                 \<and> valid v = (toLowerCase (hexlify (slice_arr 196 216 message)) = toLowerCase routerAddr)
                 \<and> reason v \<noteq> Some (''destinationCaller '' @ hexlify (slice_arr 108 140 message)
                                       @ '' != router or zero'')"
    using assms(1)
    by (simp add: validateAttestedMessage_def validate_caller_accepted [OF assms(2,3) caller]
        toLowerCase_hexlify rejected_def)
next
  assume "slice_arr 108 140 message \<noteq> replicate 32 0 \<and>
          toLowerCase (hexlify (slice_arr 108 140 message)) \<noteq> toLowerCase routerB"
  then have "slice_arr 108 140 message \<noteq> replicate 32 0"
    "hexlify (slice_arr 108 140 message) \<noteq> toLowerCase routerB"
    by (simp_all add: toLowerCase_hexlify)
  from validate_caller_rejected [OF assms(2,3) this] assms(1)
  show "validateAttestedMessage keccak messageHex routerAddr routerB =
              Inr (rejected (''destinationCaller '' @ hexlify (slice_arr 108 140 message)
                             @ '' != router or zero''), [])"
    by (simp add: validateAttestedMessage_def)
qed

lemma replicate_bytes_neq: "replicate 32 (34 :: 8 word) \<noteq> replicate 32 0"
  by (simp add: replicate_eq_replicate)

lemma hex_examples:
  "hexlify (replicate 12 0 @ replicate 20 17) = exRouterBytes32"
  "hexlify (replicate 20 17) = exRouter"
  "hexlify (replicate 32 34) = ''0x2222222222222222222222222222222222222222222222222222222222222222''"
  by code_simp+

lemma lower_examples:
  "toLowerCase exRouterBytes32 = exRouterBytes32" "toLowerCase exRouter = exRouter"
  by (simp_all add: hex_examples [symmetric] toLowerCase_hexlify)

lemma bad_caller_differs:
  "toLowerCase (hexlify (replicate 32 34)) \<noteq> toLowerCase exRouterBytes32"
proof -
  have "toLowerCase (hexlify (replicate 32 34))
      = ''0x2222222222222222222222222222222222222222222222222222222222222222''"
    unfolding toLowerCase_hexlify by (rule hex_examples)
  moreover have "''0x2222222222222222222222222222222222222222222222222222222222222222'' \<noteq> exRouterBytes32"
    by (simp add: exRouterBytes32_def)
  ultimately show ?thesis by (simp only: lower_examples) simp
qed

lemma exBadDomainMessage_fields:
  "length exBadDomainMessage = 248"
  "slice_arr 8 12 exBadDomainMessage = replicate 3 0 @ [1]"
  "slice_arr 108 140 exBadDomainMessage = replicate 32 34"
  by (simp_all add: exBadDomainMessage_def slice_arr_def)

text \<open>
  Claim C7 as stated fails for a message of sufficient length whose destinationDomain is
  not 0: the domain is checked first, and a foreign destinationCaller is then not what the
  reason names.
\<close>

theorem destination_caller_counterexample:
  "getBytes (hexlify exBadDomainMessage) = Some exBadDomainMessage
   \<and> length exBadDomainMessage = 248
   \<and> slice_arr 108 140 exBadDomainMessage \<noteq> replicate 32 0
   \<and> toLowerCase (hexlify (slice_arr 108 140 exBadDomainMessage)) \<noteq> toLowerCase exRouterBytes32
   \<and> validateAttestedMessage exHash (hexlify exBadDomainMessage) exRouter exRouterBytes32 =
       Inr (rejected ''destination domain 1 != 0 (Ethereum)'', [])
   \<and> validateAttestedMessage exHash (hexlify exBadDomainMessage) exRouter exRouterBytes32 \<noteq>
       Inr (rejected (''destinationCaller '' @ hexlify (slice_arr 108 140 exBadDomainMessage)
                      @ '' != router or zero''), [])"
proof -
  have d: "bytesToNat (slice_arr 8 12 exBadDomainMessage) = 1"
    by (simp add: exBadDomainMessage_fields bytesToNat_zeros) (simp add: bytesToNat_def)
  have v: "validateAttestedMessage exHash (hexlify exBadDomainMessage) exRouter exRouterBytes32 =
       Inr (rejected ''destination domain 1 != 0 (Ethereum)'', [])"
    using validate_domain [of exBadDomainMessage exHash exRouter exRouterBytes32]
    by (simp add: validateAttestedMessage_def getBytes_hexlify exBadDomainMessage_fields(1) d
        digitChar_def decimalString.simps)
  have n: "toLowerCase (hexlify (slice_arr 108 140 exBadDomainMessage)) \<noteq> toLowerCase exRouterBytes32"
    by (simp only: exBadDomainMessage_fields bad_caller_differs not_False_eq_True)
  show ?thesis
    unfolding v using n
    by (simp add: getBytes_hexlify exBadDomainMessage_fields replicate_bytes_neq rejected_def)
qed



lemma exHash_address: "getAddress exHash exRouter = exRouter"
  by (simp add: getAddress_def exRouter_def exHash_def hashNibble_def toLowerCase_def char_defs)

lemma exAmount: "bytesToNat (replicate 29 0 @ [15, 66, 64]) = 1000000"
  by (simp add: bytesToNat_zeros) (simp add: bytesToNat_def)

lemma exDomain: "bytesToNat (replicate 4 0) = 0"
  by (rule bytesToNat_all_zero)

lemma exOpenCallerMessage_fields:
  "length exOpenCallerMessage = 248"
  "slice_arr 8 12 exOpenCallerMessage = replicate 4 0"
  "slice_arr 108 140 exOpenCallerMessage = replicate 32 0"
  "slice_arr 196 216 exOpenCallerMessage = replicate 20 17"
  "slice_arr 216 248 exOpenCallerMessage = replicate 29 0 @ [15, 66, 64]"
  by (simp_all add: exOpenCallerMessage_def slice_arr_def replicate_add [symmetric])

lemma exBadCallerMessage_fields:
  "length exBadCallerMessage = 248"
  "slice_arr 8 12 exBadCallerMessage = replicate 4 0"
  "slice_arr 108 140 exBadCallerMessage = replicate 32 34"
  by (simp_all add: exBadCallerMessage_def slice_arr_def)

lemma router_caller_nonzero: "replicate 12 0 @ replicate 20 17 \<noteq> replicate 32 (0 :: 8 word)"
proof
  assume "replicate 12 0 @ replicate 20 17 = replicate 32 (0 :: 8 word)"
  then have "(replicate 12 0 @ replicate 20 (17 :: 8 word)) ! 12 = replicate 32 0 ! 12"
    by (rule arg_cong)
  then show False by (simp add: nth_append)
qed

lemma recipient_hex_cons:
  assumes "248 \<le> length message"
  shows "CHR ''0'' # CHR ''x'' # lastChars 40 (hexlify (slice_arr 184 216 message))
         = hexlify (slice_arr 196 216 message)"
  using recipient_hex [OF assms] by simp

text \<open>An instance of the statement above on the example data.\<close>

theorem validator_length_boundary_witness:
  "getBytes (hexlify exShortMessage) = Some exShortMessage
   \<and> length exShortMessage = 247
   \<and> validateAttestedMessage exHash (hexlify exShortMessage) exRouter exRouterBytes32 =
        Inr (rejected ''message too short'', [])
   \<and> getBytes (hexlify exMessage) = Some exMessage
   \<and> length exMessage = 248
   \<and> validateAttestedMessage exHash (hexlify exMessage) exRouter exRouterBytes32 =
        Inr (\<lparr> valid = True, reason = None, v_mintRecipient = Some exRouter,
               v_destinationDomain = Some 0, v_amount = Some ''1000000'' \<rparr>, [])
   \<and> decimalValue ''1000000'' = 1000000"
proof -
  have s: "length exShortMessage < 248" "length exShortMessage = 247"
    by (simp_all add: exShortMessage_def)
  note A = validator_length_boundary [where messageHex = "hexlify exShortMessage"
      and message = exShortMessage and keccak = exHash and routerAddr = exRouter
      and routerB = exRouterBytes32, OF getBytes_hexlify]
  from A s(1) have a: "validateAttestedMessage exHash (hexlify exShortMessage) exRouter exRouterBytes32 =
        Inr (rejected ''message too short'', [])" by blast
  have h: "248 \<le> length exMessage \<and> bytesToNat (slice_arr 8 12 exMessage) = 0 \<and>
          (slice_arr 108 140 exMessage = replicate 32 0 \<or>
           toLowerCase (hexlify (slice_arr 108 140 exMessage)) = toLowerCase exRouterBytes32) \<and>
          toLowerCase (hexlify (slice_arr 196 216 exMessage)) = toLowerCase exRouter"
    by (simp add: exMessage_fields exDomain hex_examples)

  note B = validator_length_boundary [where messageHex = "hexlify exMessage"
      and message = exMessage and keccak = exHash and routerAddr = exRouter
      and routerB = exRouterBytes32, OF getBytes_hexlify]
  from B h have b: "validateAttestedMessage exHash (hexlify exMessage) exRouter exRouterBytes32 =
              Inr (\<lparr> valid = True, reason = None,
                     v_mintRecipient = Some (getAddress exHash (hexlify (slice_arr 196 216 exMessage))),
                     v_destinationDomain = Some 0,
                     v_amount = Some (decimalString (bytesToNat (slice_arr 216 248 exMessage))) \<rparr>,
                   if slice_arr 108 140 exMessage = replicate 32 0 then [zeroCallerWarning] else [])"
    and c: "decimalValue (decimalString (bytesToNat (slice_arr 216 248 exMessage)))
                = bytesToNat (slice_arr 216 248 exMessage)"
    by blast+
  have d: "decimalString (bytesToNat (slice_arr 216 248 exMessage)) = ''1000000''"
    by (simp add: exMessage_fields exAmount digitChar_def decimalString.simps)
  from a b c s(2) show ?thesis
    unfolding d
    by (simp add: getBytes_hexlify exMessage_fields hex_examples exHash_address
        router_caller_nonzero exAmount)
qed

text \<open>An instance of the statement above on the example data.\<close>

theorem destination_caller_rule_witness:
  "getBytes (hexlify exOpenCallerMessage) = Some exOpenCallerMessage
   \<and> 248 \<le> length exOpenCallerMessage
   \<and> bytesToNat (slice_arr 8 12 exOpenCallerMessage) = 0
   \<and> slice_arr 108 140 exOpenCallerMessage = replicate 32 0
   \<and> validateAttestedMessage exHash (hexlify exOpenCallerMessage) exRouter exRouterBytes32 =
        Inr (\<lparr> valid = True, reason = None, v_mintRecipient = Some exRouter,
               v_destinationDomain = Some 0, v_amount = Some ''1000000'' \<rparr>, [zeroCallerWarning])
   \<and> getBytes (hexlify exBadCallerMessage) = Some exBadCallerMessage
   \<and> 248 \<le> length exBadCallerMessage
   \<and> bytesToNat (slice_arr 8 12 exBadCallerMessage) = 0
   \<and> slice_arr 108 140 exBadCallerMessage \<noteq> replicate 32 0
   \<and> toLowerCase (hexlify (slice_arr 108 140 exBadCallerMessage)) \<noteq> toLowerCase exRouterBytes32
   \<and> validateAttestedMessage exHash (hexlify exBadCallerMessage) exRouter exRouterBytes32 =
        Inr (rejected ''destinationCaller 0x2222222222222222222222222222222222222222222222222222222222222222 != router or zero'', [])"
proof -
  have o: "248 \<le> length exOpenCallerMessage" "bytesToNat (slice_arr 8 12 exOpenCallerMessage) = 0"
    by (simp_all add: exOpenCallerMessage_fields exDomain)
  have oz: "slice_arr 108 140 exOpenCallerMessage = replicate 32 0"
    by (rule exOpenCallerMessage_fields)
  note A = destination_caller_rule [where messageHex = "hexlify exOpenCallerMessage"
      and message = exOpenCallerMessage and keccak = exHash and routerAddr = exRouter
      and routerB = exRouterBytes32, OF getBytes_hexlify o]
  from A oz obtain v where
    v: "validateAttestedMessage exHash (hexlify exOpenCallerMessage) exRouter exRouterBytes32 =
          Inr (v, [zeroCallerWarning])"
      "valid v = (toLowerCase (hexlify (slice_arr 196 216 exOpenCallerMessage)) = toLowerCase exRouter)"
    by auto
  have e: "validateAttestedMessage exHash (hexlify exOpenCallerMessage) exRouter exRouterBytes32 =
        Inr (\<lparr> valid = True, reason = None, v_mintRecipient = Some exRouter,
               v_destinationDomain = Some 0, v_amount = Some ''1000000'' \<rparr>, [zeroCallerWarning])"
    by (simp add: validateAttestedMessage_def getBytes_hexlify
        validate_caller_accepted [where message = exOpenCallerMessage and keccak = exHash
          and routerAddr = exRouter and routerB = exRouterBytes32, OF o]
        exOpenCallerMessage_fields hex_examples lower_examples recipient_hex_cons [OF o(1)]
        exHash_address exAmount digitChar_def decimalString.simps)
  have b: "248 \<le> length exBadCallerMessage" "bytesToNat (slice_arr 8 12 exBadCallerMessage) = 0"
    by (simp_all add: exBadCallerMessage_fields exDomain)
  have bn: "slice_arr 108 140 exBadCallerMessage \<noteq> replicate 32 0"
    "toLowerCase (hexlify (slice_arr 108 140 exBadCallerMessage)) \<noteq> toLowerCase exRouterBytes32"
    by (simp_all only: exBadCallerMessage_fields replicate_bytes_neq bad_caller_differs not_False_eq_True)
  note B = destination_caller_rule [where messageHex = "hexlify exBadCallerMessage"
      and message = exBadCallerMessage and keccak = exHash and routerAddr = exRouter
      and routerB = exRouterBytes32, OF getBytes_hexlify b]
  from B bn have r: "validateAttestedMessage exHash (hexlify exBadCallerMessage) exRouter exRouterBytes32 =
              Inr (rejected (''destinationCaller '' @ hexlify (slice_arr 108 140 exBadCallerMessage)
                             @ '' != router or zero''), [])"
    by blast
  from v e r o b oz bn show ?thesis
    by (simp add: getBytes_hexlify exBadCallerMessage_fields hex_examples)
qed

section \<open>The HTTP API\<close>

lemma getJob_append_new:
  "getJob db h = None \<Longrightarrow> getJob (db @ [j]) h = (if txHash j = h then Some j else None)"
  by (induction db) (auto simp: getJob_def split: if_splits)

lemma validSourceDomain_int:
  "validSourceDomain (JNum (rat_of_int d)) \<longleftrightarrow> d \<in> set VALID_SOURCE_DOMAINS"
  by (auto simp: validSourceDomain_def)

lemma postRelay_created:
  assumes "req_sourceDomain req = JNum (rat_of_int d)" and "d \<in> set VALID_SOURCE_DOMAINS"
    and "req_txHash req = JStr h" and "TX_HASH_REGEX_test h"
    and "getJob db (toLowerCase h) = None"
  shows "postRelay (Some req) now db =
     (\<lparr> code = 201,
        body = [(''txHash'', JStr (toLowerCase h)), (''status'', JStr ''pending''),
                (''message'', JStr ''Relay job created. Poll GET /relay/:txHash for status.'')] \<rparr>,
      db @ [newJob (toLowerCase h) d now])"
proof -
  have v: "validSourceDomain (req_sourceDomain req)"
    using assms(1,2) by (simp add: validSourceDomain_int)
  have c: "createJob db (newJob (toLowerCase h) d now) = Inr (db @ [newJob (toLowerCase h) d now])"
    using assms(5) by (simp add: createJob_def newJob_def)
  show ?thesis
    using v assms(3,4,5) c by (simp add: postRelay_def Let_def assms(1))
qed

lemma postRelay_existing:
  assumes "validSourceDomain (req_sourceDomain req)"
    and "req_txHash req = JStr h" and "TX_HASH_REGEX_test h"
    and "getJob db (toLowerCase h) = Some existing"
  shows "postRelay (Some req) now db =
     (\<lparr> code = 200,
        body = [(''txHash'', JStr (txHash existing)), (''status'', JStr (statusString (status existing))),
                (''message'', JStr ''Relay job already exists.'')] \<rparr>, db)"
  using assms by (simp add: postRelay_def Let_def)

lemma postAll_existing:
  assumes "validSourceDomain (req_sourceDomain req)"
    and "req_txHash req = JStr h" and "TX_HASH_REGEX_test h"
    and "getJob db (toLowerCase h) = Some existing"
  shows "postAll (Some req) nows db =
     (replicate (length nows)
        \<lparr> code = 200,
          body = [(''txHash'', JStr (txHash existing)), (''status'', JStr (statusString (status existing))),
                  (''message'', JStr ''Relay job already exists.'')] \<rparr>, db)"
  by (induction nows) (simp_all add: postRelay_existing [OF assms])

text \<open>
  Claim C4. For a valid request whose key is not yet in the table, any number of
  \<^verbatim>\<open>POST /relay\<close> calls with it answer 201 once and 200 afterwards, and leave exactly one
  row with the key, the pending row the first call inserted. Whenever a row with the key
  exists (whatever the other components made of it), the call answers 200 with the row's
  key and status and leaves the table unchanged.
\<close>

theorem post_relay_idempotent:
  assumes "req_sourceDomain req = JNum (rat_of_int d)" and "d \<in> set VALID_SOURCE_DOMAINS"
    and "req_txHash req = JStr h" and "TX_HASH_REGEX_test h"
    and "getJob db (toLowerCase h) = None"
  shows "postAll (Some req) (now # nows) db =
           (\<lparr> code = 201,
              body = [(''txHash'', JStr (toLowerCase h)), (''status'', JStr ''pending''),
                      (''message'', JStr ''Relay job created. Poll GET /relay/:txHash for status.'')] \<rparr>
            # replicate (length nows)
                \<lparr> code = 200,
                  body = [(''txHash'', JStr (toLowerCase h)), (''status'', JStr ''pending''),
                          (''message'', JStr ''Relay job already exists.'')] \<rparr>,
            db @ [newJob (toLowerCase h) d now])
         \<and> status (newJob (toLowerCase h) d now) = Pending
         \<and> length (filter (\<lambda>j. txHash j = toLowerCase h) (snd (postAll (Some req) (now # nows) db))) = 1
         \<and> (\<forall>db' existing now'. getJob db' (toLowerCase h) = Some existing \<longrightarrow>
               postRelay (Some req) now' db' =
                 (\<lparr> code = 200,
                    body = [(''txHash'', JStr (txHash existing)),
                            (''status'', JStr (statusString (status existing))),
                            (''message'', JStr ''Relay job already exists.'')] \<rparr>, db'))"
proof -
  let ?j = "newJob (toLowerCase h) d now"
  have v: "validSourceDomain (req_sourceDomain req)"
    using assms(1,2) by (simp add: validSourceDomain_int)
  have g: "getJob (db @ [?j]) (toLowerCase h) = Some ?j"
    using assms(5) by (simp add: getJob_append_new newJob_def)
  have a: "postAll (Some req) (now # nows) db =
           (\<lparr> code = 201,
              body = [(''txHash'', JStr (toLowerCase h)), (''status'', JStr ''pending''),
                      (''message'', JStr ''Relay job created. Poll GET /relay/:txHash for status.'')] \<rparr>
            # replicate (length nows)
                \<lparr> code = 200,
                  body = [(''txHash'', JStr (toLowerCase h)), (''status'', JStr ''pending''),
                          (''message'', JStr ''Relay job already exists.'')] \<rparr>,
            db @ [?j])"
    using postRelay_created [OF assms, of now] postAll_existing [OF v assms(3,4) g, of nows]
    by (simp add: newJob_def statusString_def)
  have f: "filter (\<lambda>j. txHash j = toLowerCase h) db = []"
    using assms(5) by (simp add: getJob_def find_None_iff filter_empty_conv)
  have n: "length (filter (\<lambda>j. txHash j = toLowerCase h) (snd (postAll (Some req) (now # nows) db))) = 1"
    unfolding a using f by (simp add: newJob_def)
  have s: "status ?j = Pending" by (simp add: newJob_def)
  from a s n postRelay_existing [OF v assms(3,4)] show ?thesis by blast
qed

lemma exTxHash_ok: "TX_HASH_REGEX_test exTxHash" "toLowerCase exTxHash = exTxHashLower"
  by (simp_all add: TX_HASH_REGEX_test_def exTxHash_def exTxHashLower_def isHexDigit_def
      toLowerCase_def char_defs)

text \<open>An instance of the statement above on the example data.\<close>

theorem post_relay_idempotent_witness:
  "postAll (Some exRequest) [exT0, exT1, exT1] [] =
     ([\<lparr> code = 201,
         body = [(''txHash'', JStr exTxHashLower), (''status'', JStr ''pending''),
                 (''message'', JStr ''Relay job created. Poll GET /relay/:txHash for status.'')] \<rparr>,
       \<lparr> code = 200,
         body = [(''txHash'', JStr exTxHashLower), (''status'', JStr ''pending''),
                 (''message'', JStr ''Relay job already exists.'')] \<rparr>,
       \<lparr> code = 200,
         body = [(''txHash'', JStr exTxHashLower), (''status'', JStr ''pending''),
                 (''message'', JStr ''Relay job already exists.'')] \<rparr>],
      [newJob exTxHashLower 3 exT0])
   \<and> length (filter (\<lambda>j. txHash j = exTxHashLower) (snd (postAll (Some exRequest) [exT0, exT1, exT1] []))) = 1
   \<and> postRelay (Some exRequest) exT1 [newJob exTxHashLower 3 exT0] =
        (\<lparr> code = 200,
           body = [(''txHash'', JStr exTxHashLower), (''status'', JStr ''pending''),
                   (''message'', JStr ''Relay job already exists.'')] \<rparr>,
         [newJob exTxHashLower 3 exT0])"
proof -
  have 1: "req_sourceDomain exRequest = JNum (rat_of_int 3)" by (simp add: exRequest_def)
  have 2: "(3::int) \<in> set VALID_SOURCE_DOMAINS" by (simp add: VALID_SOURCE_DOMAINS_def)
  have 3: "req_txHash exRequest = JStr exTxHash" by (simp add: exRequest_def)
  have 5: "getJob [] (toLowerCase exTxHash) = None" by (simp add: getJob_def)
  have 6: "getJob [newJob exTxHashLower 3 exT0] exTxHashLower = Some (newJob exTxHashLower 3 exT0)"
    by (simp add: getJob_def newJob_def)
  note T = post_relay_idempotent [OF 1 2 3 exTxHash_ok(1) 5, of exT0 "[exT1, exT1]", unfolded exTxHash_ok(2)]
  from T have a: "postAll (Some exRequest) [exT0, exT1, exT1] [] =
     ([\<lparr> code = 201,
         body = [(''txHash'', JStr exTxHashLower), (''status'', JStr ''pending''),
                 (''message'', JStr ''Relay job created. Poll GET /relay/:txHash for status.'')] \<rparr>,
       \<lparr> code = 200,
         body = [(''txHash'', JStr exTxHashLower), (''status'', JStr ''pending''),
                 (''message'', JStr ''Relay job already exists.'')] \<rparr>,
       \<lparr> code = 200,
         body = [(''txHash'', JStr exTxHashLower), (''status'', JStr ''pending''),
                 (''message'', JStr ''Relay job already exists.'')] \<rparr>],
      [newJob exTxHashLower 3 exT0])"
    by (simp add: eval_nat_numeral)
  from T have b: "length (filter (\<lambda>j. txHash j = exTxHashLower) (snd (postAll (Some exRequest) [exT0, exT1, exT1] []))) = 1"
    by blast
  from T 6 have c: "postRelay (Some exRequest) exT1 [newJob exTxHashLower 3 exT0] =
        (\<lparr> code = 200,
           body = [(''txHash'', JStr (txHash (newJob exTxHashLower 3 exT0))),
                   (''status'', JStr (statusString (status (newJob exTxHashLower 3 exT0)))),
                   (''message'', JStr ''Relay job already exists.'')] \<rparr>,
         [newJob exTxHashLower 3 exT0])"
    by blast
  from a b c show ?thesis by (simp add: newJob_def statusString_def)
qed



text \<open>
  Claim C9. For an existing job \<^verbatim>\<open>GET /relay/:txHash\<close> answers 200 with exactly the ten
  fields txHash, sourceDomain, status, outcome, error, ethTxHash and the four timestamps;
  two tables whose rows for the key differ only in the attested payload, the decoded
  fields, the block number, the two counters or updatedAt get the same answer.
\<close>

theorem get_relay_narrow_projection:
  "(getJob db (toLowerCase rawParam) = Some job \<longrightarrow>
      getRelay rawParam db =
        \<lparr> code = 200,
          body = [(''txHash'', JStr (txHash job)),
                  (''sourceDomain'', JNum (rat_of_int (sourceDomain job))),
                  (''status'', JStr (statusString (status job))),
                  (''outcome'', jsString (map_option outcomeString (outcome job))),
                  (''error'', jsString (error job)),
                  (''ethTxHash'', jsString (ethTxHash job)),
                  (''createdAt'', JStr (createdAt job)),
                  (''attestedAt'', jsString (attestedAt job)),
                  (''submittedAt'', jsString (submittedAt job)),
                  (''confirmedAt'', jsString (confirmedAt job))] \<rparr>
      \<and> map fst (body (getRelay rawParam db)) =
          [''txHash'', ''sourceDomain'', ''status'', ''outcome'', ''error'', ''ethTxHash'',
           ''createdAt'', ''attestedAt'', ''submittedAt'', ''confirmedAt''])
   \<and> (getJob db (toLowerCase rawParam) = Some job \<and>
      getJob db' (toLowerCase rawParam) =
        Some (job \<lparr> attestedMessage := a, attestation := b, irisNonce := c,
                     mintRecipient := d, destinationDomain := e, amount := f,
                     ethBlockNumber := g, pollAttempts := k, retryCount := r,
                     updatedAt := u \<rparr>) \<longrightarrow>
      getRelay rawParam db' = getRelay rawParam db)"
  by (simp add: jobProjection_def getRelay_def)

text \<open>An instance of the statement above on the example data.\<close>

theorem get_relay_narrow_projection_witness:
  "getJob [exForwardedJob] (toLowerCase exTxHash) = Some exForwardedJob
   \<and> getRelay exTxHash [exForwardedJob] =
        \<lparr> code = 200,
          body = [(''txHash'', JStr exTxHashLower),
                  (''sourceDomain'', JNum 3),
                  (''status'', JStr ''confirmed''),
                  (''outcome'', JStr ''forwarded''),
                  (''error'', JNull),
                  (''ethTxHash'', JStr exDestTx),
                  (''createdAt'', JStr exT0),
                  (''attestedAt'', JStr exT2),
                  (''submittedAt'', JStr exT3),
                  (''confirmedAt'', JStr exT4)] \<rparr>
   \<and> getJob [exForwardedJob \<lparr> attestedMessage := None, attestation := None, irisNonce := None,
                     mintRecipient := None, destinationDomain := None, amount := None,
                     ethBlockNumber := None, pollAttempts := 7, retryCount := 2,
                     updatedAt := exT0 \<rparr>] (toLowerCase exTxHash) =
        Some (exForwardedJob \<lparr> attestedMessage := None, attestation := None, irisNonce := None,
                     mintRecipient := None, destinationDomain := None, amount := None,
                     ethBlockNumber := None, pollAttempts := 7, retryCount := 2,
                     updatedAt := exT0 \<rparr>)
   \<and> getRelay exTxHash [exForwardedJob \<lparr> attestedMessage := None, attestation := None, irisNonce := None,
                     mintRecipient := None, destinationDomain := None, amount := None,
                     ethBlockNumber := None, pollAttempts := 7, retryCount := 2,
                     updatedAt := exT0 \<rparr>] = getRelay exTxHash [exForwardedJob]"
proof -
  have k: "txHash exForwardedJob = exTxHashLower"
    by (simp add: exForwardedJob_def exSubmittedJob_def exAttestedJob_def exPollingJob_def
        exPendingJob_def newJob_def)
  have g: "getJob [exForwardedJob] (toLowerCase exTxHash) = Some exForwardedJob"
    by (simp add: getJob_def exTxHash_ok k)
  have g': "getJob [exForwardedJob \<lparr> attestedMessage := None, attestation := None, irisNonce := None,
                     mintRecipient := None, destinationDomain := None, amount := None,
                     ethBlockNumber := None, pollAttempts := 7, retryCount := 2,
                     updatedAt := exT0 \<rparr>] (toLowerCase exTxHash) =
        Some (exForwardedJob \<lparr> attestedMessage := None, attestation := None, irisNonce := None,
                     mintRecipient := None, destinationDomain := None, amount := None,
                     ethBlockNumber := None, pollAttempts := 7, retryCount := 2,
                     updatedAt := exT0 \<rparr>)"
    by (simp add: getJob_def exTxHash_ok k)
  note T = get_relay_narrow_projection [where db = "[exForwardedJob]" and rawParam = exTxHash
      and job = exForwardedJob
      and db' = "[exForwardedJob \<lparr> attestedMessage := None, attestation := None, irisNonce := None,
                     mintRecipient := None, destinationDomain := None, amount := None,
                     ethBlockNumber := None, pollAttempts := 7, retryCount := 2,
                     updatedAt := exT0 \<rparr>]"
      and a = None and b = None and c = None and d = None and e = None and f = None
      and g = None and k = 7 and r = 2 and u = exT0]
  from T g have r1: "getRelay exTxHash [exForwardedJob] =
        \<lparr> code = 200,
          body = [(''txHash'', JStr (txHash exForwardedJob)),
                  (''sourceDomain'', JNum (rat_of_int (sourceDomain exForwardedJob))),
                  (''status'', JStr (statusString (status exForwardedJob))),
                  (''outcome'', jsString (map_option outcomeString (outcome exForwardedJob))),
                  (''error'', jsString (error exForwardedJob)),
                  (''ethTxHash'', jsString (ethTxHash exForwardedJob)),
                  (''createdAt'', JStr (createdAt exForwardedJob)),
                  (''attestedAt'', jsString (attestedAt exForwardedJob)),
                  (''submittedAt'', jsString (submittedAt exForwardedJob)),
                  (''confirmedAt'', jsString (confirmedAt exForwardedJob))] \<rparr>"
    by blast
  from T g g' have r2: "getRelay exTxHash [exForwardedJob \<lparr> attestedMessage := None, attestation := None, irisNonce := None,
                     mintRecipient := None, destinationDomain := None, amount := None,
                     ethBlockNumber := None, pollAttempts := 7, retryCount := 2,
                     updatedAt := exT0 \<rparr>] = getRelay exTxHash [exForwardedJob]"
    by blast
  have v: "txHash exForwardedJob = exTxHashLower" "sourceDomain exForwardedJob = 3"
    "status exForwardedJob = Confirmed" "outcome exForwardedJob = Some Forwarded"
    "error exForwardedJob = None" "ethTxHash exForwardedJob = Some exDestTx"
    "createdAt exForwardedJob = exT0" "attestedAt exForwardedJob = Some exT2"
    "submittedAt exForwardedJob = Some exT3" "confirmedAt exForwardedJob = Some exT4"
    by (simp_all add: exForwardedJob_def exSubmittedJob_def exAttestedJob_def exPollingJob_def
        exPendingJob_def newJob_def)
  from r1 have r1': "getRelay exTxHash [exForwardedJob] =
        \<lparr> code = 200,
          body = [(''txHash'', JStr exTxHashLower),
                  (''sourceDomain'', JNum 3),
                  (''status'', JStr ''confirmed''),
                  (''outcome'', JStr ''forwarded''),
                  (''error'', JNull),
                  (''ethTxHash'', JStr exDestTx),
                  (''createdAt'', JStr exT0),
                  (''attestedAt'', JStr exT2),
                  (''submittedAt'', JStr exT3),
                  (''confirmedAt'', JStr exT4)] \<rparr>"
    by (simp add: v statusString_def outcomeString_def jsString_def)
  from g r1' g' r2 show ?thesis by blast
qed

section \<open>The outcome classifier\<close>

lemmas ex_jobs = exPendingJob_def exPollingJob_def exAttestedJob_def exSubmittedJob_def
  exForwardedJob_def exUnknownJob_def exStrandedJob_def newJob_def


lemma find_Some_iff_Bex: "(find P xs \<noteq> None) = (\<exists>x\<in>set xs. P x)"
  by (auto simp: find_None_iff)

lemma recovered_topic_distinct:
  "RECOVERED_FROM_CONSUMED_NONCE_TOPIC0 \<noteq> RELAYED_TOPIC0"
  "RECOVERED_FROM_CONSUMED_NONCE_TOPIC0 \<noteq> FALLBACK_TRIGGERED_TOPIC0"
  "RECOVERED_FROM_CONSUMED_NONCE_TOPIC0 \<noteq> OPERATOR_ROUTED_TOPIC0"
  by (simp_all add: RECOVERED_FROM_CONSUMED_NONCE_TOPIC0_def RELAYED_TOPIC0_def
      FALLBACK_TRIGGERED_TOPIC0_def OPERATOR_ROUTED_TOPIC0_def)

lemma recovered_not_primary:
  assumes "topic0Is RECOVERED_FROM_CONSUMED_NONCE_TOPIC0 l"
  shows "\<not> topic0Is RELAYED_TOPIC0 l" "\<not> topic0Is FALLBACK_TRIGGERED_TOPIC0 l"
    "\<not> topic0Is OPERATOR_ROUTED_TOPIC0 l"
  using assms recovered_topic_distinct by (auto simp: topic0Is_def split: list.splits)

lemma determineOutcome_set:
  "determineOutcome ls =
     (if \<exists>l\<in>set ls. topic0Is RELAYED_TOPIC0 l then Some Forwarded
      else if \<exists>l\<in>set ls. topic0Is FALLBACK_TRIGGERED_TOPIC0 l then Some Fallback
      else if \<exists>l\<in>set ls. topic0Is OPERATOR_ROUTED_TOPIC0 l then Some OperatorRouted
      else None)"
  unfolding determineOutcome_def Let_def find_Some_iff_Bex by simp

lemma getJob_update:
  "getJob (updateJob db now h u) h' =
     (if h' = h then map_option (applyUpdates u now) (getJob db h) else getJob db h')"
  by (induction db) (auto simp: getJob_def updateJob_def)

lemma outcomeOf_markConfirmed:
  assumes "getJob db (txHash job) = Some j"
  shows "outcomeOf (markConfirmed job receipt cNow now db) (txHash job)
           = Some (determineOutcome (logs receipt))"
    and "statusOf (markConfirmed job receipt cNow now db) (txHash job) = Some Confirmed"
  using assms
  by (simp_all add: outcomeOf_def statusOf_def markConfirmed_def getJob_update noUpdates_def)

lemma awaitReceipt_ok:
  "receiptStatus receipt \<noteq> Some 0 \<Longrightarrow> awaitReceipt txh (Inr (Some receipt)) = Inr receipt"
  by (simp add: awaitReceipt_def)

lemma waitDone_ok:
  "receiptStatus receipt \<noteq> Some 0 \<Longrightarrow>
   waitDone config (Inr (Some receipt)) cNow now job txh db
     = (SIdle, markConfirmed job receipt cNow now db)"
  by (simp add: waitDone_def awaitReceipt_ok)

lemma submitJob_ok:
  "estimateGasResult env = Inr g \<Longrightarrow> sendResult env = Inr txh \<Longrightarrow>
   waitResult env = Inr (Some receipt) \<Longrightarrow> receiptStatus receipt \<noteq> Some 0 \<Longrightarrow>
   submitJob config env job db
     = markConfirmed job receipt (confirmedNow env) (finalUpdateNow env)
         (markSubmitted job txh (submittedNow env) (submittedUpdateNow env) db)"
  by (simp add: submitJob_def awaitReceipt_ok Let_def)

lemma getJob_markSubmitted:
  "getJob db (txHash job) = Some j \<Longrightarrow>
   \<exists>j'. getJob (markSubmitted job txh sNow now db) (txHash job) = Some j'"
  by (simp add: markSubmitted_def getJob_update)

text \<open>
  Claim C5. When the submitter gets a receipt that is not a revert for a job whose row
  exists, the outcome it stores in the row, both in the step \<^const>\<open>waitDone\<close> and in a whole
  submission \<^const>\<open>submitJob\<close>, is: forwarded if some log's first topic is the Relayed
  signature, else fallback if some log matches FallbackTriggered, else operator_routed if
  some log matches OperatorRouted, else no outcome; the row becomes confirmed. The stored
  outcome depends on the set of logs only, and a log matching RecoveredFromConsumedNonce
  never changes it.
\<close>

theorem confirmation_records_outcome_by_priority:
  assumes "getJob db (txHash job) = Some j" and "receiptStatus receipt \<noteq> Some 0"
  shows "outcomeOf (snd (waitDone config (Inr (Some receipt)) cNow now job txh db)) (txHash job) =
           Some (if \<exists>l\<in>set (logs receipt). topic0Is RELAYED_TOPIC0 l then Some Forwarded
                 else if \<exists>l\<in>set (logs receipt). topic0Is FALLBACK_TRIGGERED_TOPIC0 l then Some Fallback
                 else if \<exists>l\<in>set (logs receipt). topic0Is OPERATOR_ROUTED_TOPIC0 l then Some OperatorRouted
                 else None)
       \<and> statusOf (snd (waitDone config (Inr (Some receipt)) cNow now job txh db)) (txHash job)
           = Some Confirmed
       \<and> (estimateGasResult env = Inr g \<and> sendResult env = Inr txh \<and>
          waitResult env = Inr (Some receipt) \<longrightarrow>
            outcomeOf (submitJob config env job db) (txHash job) =
              Some (if \<exists>l\<in>set (logs receipt). topic0Is RELAYED_TOPIC0 l then Some Forwarded
                    else if \<exists>l\<in>set (logs receipt). topic0Is FALLBACK_TRIGGERED_TOPIC0 l then Some Fallback
                    else if \<exists>l\<in>set (logs receipt). topic0Is OPERATOR_ROUTED_TOPIC0 l then Some OperatorRouted
                    else None))
       \<and> (set (logs receipt') = set (logs receipt) \<and> receiptStatus receipt' \<noteq> Some 0 \<longrightarrow>
            outcomeOf (snd (waitDone config (Inr (Some receipt')) cNow now job txh db)) (txHash job) =
            outcomeOf (snd (waitDone config (Inr (Some receipt)) cNow now job txh db)) (txHash job))
       \<and> (topic0Is RECOVERED_FROM_CONSUMED_NONCE_TOPIC0 r \<and> logs receipt = xs @ r # ys \<longrightarrow>
            outcomeOf (snd (waitDone config (Inr (Some (receipt \<lparr> logs := xs @ ys \<rparr>))) cNow now job txh db))
              (txHash job) =
            outcomeOf (snd (waitDone config (Inr (Some receipt)) cNow now job txh db)) (txHash job))"
proof -
  have w: "outcomeOf (snd (waitDone config (Inr (Some rc)) cNow now job txh db)) (txHash job)
             = Some (determineOutcome (logs rc))"
    if "receiptStatus rc \<noteq> Some 0" for rc
    using that by (simp add: waitDone_ok outcomeOf_markConfirmed(1) [OF assms(1)])
  have 1: "outcomeOf (snd (waitDone config (Inr (Some receipt)) cNow now job txh db)) (txHash job) =
           Some (if \<exists>l\<in>set (logs receipt). topic0Is RELAYED_TOPIC0 l then Some Forwarded
                 else if \<exists>l\<in>set (logs receipt). topic0Is FALLBACK_TRIGGERED_TOPIC0 l then Some Fallback
                 else if \<exists>l\<in>set (logs receipt). topic0Is OPERATOR_ROUTED_TOPIC0 l then Some OperatorRouted
                 else None)"
    unfolding w [OF assms(2)] by (simp only: determineOutcome_set)
  have 2: "statusOf (snd (waitDone config (Inr (Some receipt)) cNow now job txh db)) (txHash job)
           = Some Confirmed"
    using assms(2) by (simp add: waitDone_ok outcomeOf_markConfirmed(2) [OF assms(1)])
  have 3: "outcomeOf (submitJob config env job db) (txHash job) =
              Some (if \<exists>l\<in>set (logs receipt). topic0Is RELAYED_TOPIC0 l then Some Forwarded
                    else if \<exists>l\<in>set (logs receipt). topic0Is FALLBACK_TRIGGERED_TOPIC0 l then Some Fallback
                    else if \<exists>l\<in>set (logs receipt). topic0Is OPERATOR_ROUTED_TOPIC0 l then Some OperatorRouted
                    else None)"
    if e: "estimateGasResult env = Inr g \<and> sendResult env = Inr txh \<and> waitResult env = Inr (Some receipt)"
  proof -
    from getJob_markSubmitted [OF assms(1)] obtain j' where
      j': "getJob (markSubmitted job txh (submittedNow env) (submittedUpdateNow env) db) (txHash job) = Some j'"
      by blast
    from e have "submitJob config env job db
        = markConfirmed job receipt (confirmedNow env) (finalUpdateNow env)
            (markSubmitted job txh (submittedNow env) (submittedUpdateNow env) db)"
      using submitJob_ok assms(2) by blast
    then show ?thesis
      by (simp only: outcomeOf_markConfirmed(1) [OF j'] determineOutcome_set)
  qed
  have 4: "outcomeOf (snd (waitDone config (Inr (Some receipt')) cNow now job txh db)) (txHash job) =
            outcomeOf (snd (waitDone config (Inr (Some receipt)) cNow now job txh db)) (txHash job)"
    if "set (logs receipt') = set (logs receipt) \<and> receiptStatus receipt' \<noteq> Some 0"
    using that w [OF assms(2)] w [of receipt'] by (simp add: determineOutcome_set)
  have 5: "outcomeOf (snd (waitDone config (Inr (Some (receipt \<lparr> logs := xs @ ys \<rparr>))) cNow now job txh db))
              (txHash job) =
            outcomeOf (snd (waitDone config (Inr (Some receipt)) cNow now job txh db)) (txHash job)"
    if h: "topic0Is RECOVERED_FROM_CONSUMED_NONCE_TOPIC0 r \<and> logs receipt = xs @ r # ys"
  proof -
    from h have r: "topic0Is RECOVERED_FROM_CONSUMED_NONCE_TOPIC0 r" and l: "logs receipt = xs @ r # ys"
      by simp_all
    have "determineOutcome (xs @ r # ys) = determineOutcome (xs @ ys)"
      using recovered_not_primary [OF r] by (simp add: determineOutcome_set)
    then show ?thesis
      using w [OF assms(2)] w [of "receipt \<lparr> logs := xs @ ys \<rparr>"] assms(2) l by simp
  qed
  from 1 2 3 4 5 show ?thesis by blast
qed

lemma ex_keys:
  "txHash exPendingJob = exTxHashLower" "txHash exPollingJob = exTxHashLower"
  "txHash exAttestedJob = exTxHashLower" "txHash exSubmittedJob = exTxHashLower"
  "txHash exStrandedJob = exTxHashLower"
  by (simp_all add: ex_jobs)

lemma ex_status:
  "status exPendingJob = Pending" "status exPollingJob = Polling"
  "status exAttestedJob = Attested" "status exSubmittedJob = Submitted"
  "status exStrandedJob = Submitted" "status exForwardedJob = Confirmed"
  "status exUnknownJob = Confirmed"
  by (simp_all add: ex_jobs)

lemma ex_topics:
  "topic0Is RELAYED_TOPIC0 exRelayedLog"
  "topic0Is RECOVERED_FROM_CONSUMED_NONCE_TOPIC0 exRecoveredLog"
  "topic0Is FALLBACK_TRIGGERED_TOPIC0 exFallbackLog"
  "\<not> topic0Is RELAYED_TOPIC0 exFallbackLog"
  "\<not> topic0Is RELAYED_TOPIC0 exRecoveredLog"
  "\<not> topic0Is FALLBACK_TRIGGERED_TOPIC0 exRecoveredLog"
  "\<not> topic0Is OPERATOR_ROUTED_TOPIC0 exRecoveredLog"
  by (simp_all add: topic0Is_def exRelayedLog_def exRecoveredLog_def exFallbackLog_def
      RECOVERED_FROM_CONSUMED_NONCE_TOPIC0_def RELAYED_TOPIC0_def
      FALLBACK_TRIGGERED_TOPIC0_def OPERATOR_ROUTED_TOPIC0_def)

text \<open>An instance of the statement above on the example data.\<close>

theorem confirmation_records_outcome_by_priority_witness:
  "getJob [exSubmittedJob] (txHash exAttestedJob) = Some exSubmittedJob
   \<and> receiptStatus exReceipt \<noteq> Some 0
   \<and> logs exReceipt = [exRecoveredLog, exRelayedLog]
   \<and> outcomeOf (snd (waitDone exConfig (Inr (Some exReceipt)) exT4 exT4 exAttestedJob exDestTx
                        [exSubmittedJob])) (txHash exAttestedJob) = Some (Some Forwarded)
   \<and> statusOf (snd (waitDone exConfig (Inr (Some exReceipt)) exT4 exT4 exAttestedJob exDestTx
                        [exSubmittedJob])) (txHash exAttestedJob) = Some Confirmed
   \<and> outcomeOf (snd (waitDone exConfig (Inr (Some (exReceipt \<lparr> logs := [exRelayedLog, exRecoveredLog] \<rparr>)))
                        exT4 exT4 exAttestedJob exDestTx [exSubmittedJob])) (txHash exAttestedJob)
       = Some (Some Forwarded)
   \<and> outcomeOf (snd (waitDone exConfig (Inr (Some (exReceipt \<lparr> logs := [] @ [exRelayedLog] \<rparr>)))
                        exT4 exT4 exAttestedJob exDestTx [exSubmittedJob])) (txHash exAttestedJob)
       = Some (Some Forwarded)
   \<and> outcomeOf (snd (waitDone exConfig (Inr (Some (exReceipt \<lparr> logs := [exRecoveredLog, exFallbackLog] \<rparr>)))
                        exT4 exT4 exAttestedJob exDestTx [exSubmittedJob])) (txHash exAttestedJob)
       = Some (Some Fallback)
   \<and> outcomeOf (snd (waitDone exConfig (Inr (Some (exReceipt \<lparr> logs := [exRecoveredLog] \<rparr>)))
                        exT4 exT4 exAttestedJob exDestTx [exSubmittedJob])) (txHash exAttestedJob)
       = Some None
   \<and> getJob [exAttestedJob] (txHash exAttestedJob) = Some exAttestedJob
   \<and> outcomeOf (submitJob exConfig exEnv exAttestedJob [exAttestedJob]) (txHash exAttestedJob)
       = Some (Some Forwarded)"
proof -
  have g: "getJob [exSubmittedJob] (txHash exAttestedJob) = Some exSubmittedJob"
    "getJob [exAttestedJob] (txHash exAttestedJob) = Some exAttestedJob"
    by (simp_all add: getJob_def ex_keys)
  have s: "receiptStatus exReceipt \<noteq> Some 0" "logs exReceipt = [exRecoveredLog, exRelayedLog]"
    "receiptStatus (exReceipt \<lparr> logs := [exRecoveredLog, exFallbackLog] \<rparr>) \<noteq> Some 0"
    "receiptStatus (exReceipt \<lparr> logs := [exRecoveredLog] \<rparr>) \<noteq> Some 0"
    "receiptStatus (exReceipt \<lparr> logs := [exRelayedLog, exRecoveredLog] \<rparr>) \<noteq> Some 0"
    by (simp_all add: exReceipt_def)
  have e: "estimateGasResult exEnv = Inr 250000 \<and> sendResult exEnv = Inr exDestTx \<and>
           waitResult exEnv = Inr (Some exReceipt)"
    by (simp add: exEnv_def)
  note A = confirmation_records_outcome_by_priority [OF g(1) s(1), where config = exConfig
      and cNow = exT4 and now = exT4 and txh = exDestTx
      and receipt' = "exReceipt \<lparr> logs := [exRelayedLog, exRecoveredLog] \<rparr>"
      and r = exRecoveredLog and xs = "[]" and ys = "[exRelayedLog]"]
  note B = confirmation_records_outcome_by_priority [OF g(1) s(3), where config = exConfig
      and cNow = exT4 and now = exT4 and txh = exDestTx]
  note C = confirmation_records_outcome_by_priority [OF g(1) s(4), where config = exConfig
      and cNow = exT4 and now = exT4 and txh = exDestTx]
  note D = confirmation_records_outcome_by_priority [OF g(2) s(1), where config = exConfig
      and env = exEnv and g = 250000 and txh = exDestTx]
  from A have a1: "outcomeOf (snd (waitDone exConfig (Inr (Some exReceipt)) exT4 exT4 exAttestedJob exDestTx
                        [exSubmittedJob])) (txHash exAttestedJob) = Some (Some Forwarded)"
    by (simp add: s(2) ex_topics)
  from A have a2: "statusOf (snd (waitDone exConfig (Inr (Some exReceipt)) exT4 exT4 exAttestedJob exDestTx
                        [exSubmittedJob])) (txHash exAttestedJob) = Some Confirmed"
    by blast
  have "set (logs (exReceipt \<lparr> logs := [exRelayedLog, exRecoveredLog] \<rparr>)) = set (logs exReceipt)"
    by (auto simp: s(2))
  with A s(5) a1 have a3: "outcomeOf (snd (waitDone exConfig
        (Inr (Some (exReceipt \<lparr> logs := [exRelayedLog, exRecoveredLog] \<rparr>)))
        exT4 exT4 exAttestedJob exDestTx [exSubmittedJob])) (txHash exAttestedJob) = Some (Some Forwarded)"
    by metis
  have "topic0Is RECOVERED_FROM_CONSUMED_NONCE_TOPIC0 exRecoveredLog \<and>
        logs exReceipt = [] @ exRecoveredLog # [exRelayedLog]"
    by (simp add: ex_topics s(2))
  with A a1 have a4: "outcomeOf (snd (waitDone exConfig (Inr (Some (exReceipt \<lparr> logs := [] @ [exRelayedLog] \<rparr>)))
                        exT4 exT4 exAttestedJob exDestTx [exSubmittedJob])) (txHash exAttestedJob)
       = Some (Some Forwarded)"
    by metis
  from B have b: "outcomeOf (snd (waitDone exConfig (Inr (Some (exReceipt \<lparr> logs := [exRecoveredLog, exFallbackLog] \<rparr>)))
                        exT4 exT4 exAttestedJob exDestTx [exSubmittedJob])) (txHash exAttestedJob)
       = Some (Some Fallback)"
    by (simp add: ex_topics)
  from C have c: "outcomeOf (snd (waitDone exConfig (Inr (Some (exReceipt \<lparr> logs := [exRecoveredLog] \<rparr>)))
                        exT4 exT4 exAttestedJob exDestTx [exSubmittedJob])) (txHash exAttestedJob)
       = Some None"
    by (simp add: ex_topics)
  from D e have d: "outcomeOf (submitJob exConfig exEnv exAttestedJob [exAttestedJob]) (txHash exAttestedJob)
       = Some (Some Forwarded)"
    by (simp add: s(2) ex_topics)
  from g s(1,2) a1 a2 a3 a4 b c d show ?thesis by blast
qed

section \<open>The submitter on stranded and failed jobs\<close>

lemma oldest_single:
  "getOldestByStatus tie [j] st = (if status j = st then Some j else None)"
  by (simp add: getOldestByStatus_def orderByCreatedAt_def)

lemma iteration_idle:
  "getOldestByStatus tie db Attested = None \<Longrightarrow> submitterIteration tie config env db = db"
  by (simp add: submitterIteration_def)

lemma iterations_idle:
  "getOldestByStatus tie db Attested = None \<Longrightarrow>
   foldl (\<lambda>d env. submitterIteration tie config env d) db envs = db"
  by (induction envs) (simp_all add: iteration_idle)

text \<open>
  Claim C1 (the code does not do this). The claim asks that after a restart the submitter
  looks up the receipt of every job left in status submitted and finalizes or requeues it.
  The loop of \<^verbatim>\<open>startSubmitter\<close> reads the oldest attested row and nothing else: on a table
  holding one submitted job with its destination transaction hash, an iteration finds no
  job and leaves the table as it is, whatever the chain would answer and however often it
  runs. (\<open>submitted_row_stays\<close> below: no step of the process changes such a row after a
  restart.)
\<close>

theorem submitted_job_is_never_rescued:
  "status exSubmittedJob = Submitted
   \<and> ethTxHash exSubmittedJob = Some exDestTx
   \<and> getOldestByStatus tie [exSubmittedJob] Attested = None
   \<and> submitterIteration tie config env [exSubmittedJob] = [exSubmittedJob]
   \<and> foldl (\<lambda>db env. submitterIteration tie config env db) [exSubmittedJob] envs = [exSubmittedJob]"
proof -
  have n: "getOldestByStatus tie [exSubmittedJob] Attested = None"
    by (simp add: oldest_single ex_status)
  have "ethTxHash exSubmittedJob = Some exDestTx" by (simp add: ex_jobs)
  with n iteration_idle [OF n] iterations_idle [OF n] ex_status(4) show ?thesis by blast
qed

lemma revert_not_terminal: "\<not> isTerminal (''Tx reverted: '' @ exDestTx)"
  by (simp add: isTerminal_def exDestTx_def)

lemma stranded_iteration:
  "submitterIteration tie exConfig exEnvReverted [exAttestedJob] = [exStrandedJob]"
proof -
  have a: "awaitReceipt exDestTx (Inr (Some exRevertedReceipt)) = Inl (''Tx reverted: '' @ exDestTx)"
    by (simp add: awaitReceipt_def exRevertedReceipt_def)
  have m: "markSubmitted exAttestedJob exDestTx exT3 exT3 [exAttestedJob] = [exSubmittedJob]"
    by (simp add: markSubmitted_def updateJob_def applyUpdates_def noUpdates_def ex_jobs)
  have f: "onSubmissionFailure exConfig exAttestedJob (''Tx reverted: '' @ exDestTx) exT4 [exSubmittedJob]
         = [exStrandedJob]"
    using revert_not_terminal
    by (simp add: onSubmissionFailure_def exConfig_def Let_def updateJob_def applyUpdates_def
        noUpdates_def ex_jobs)
  show ?thesis
    using a m f
    by (simp add: submitterIteration_def oldest_single ex_status submitJob_def exEnvReverted_def
        exEnv_def)
qed

text \<open>
  Claim C3 (the code does not do this on one path). The claim asks that after a transient
  failure with retries left the job keeps status attested and is picked up again. When
  the failure comes after the broadcast (here: the receipt reports a revert), the row was
  already set to submitted, the \<^verbatim>\<open>catch\<close> block writes only the error and the retry count,
  and the row stays submitted: the next iterations do not find it. Before the broadcast
  the policy is as claimed (\<open>failure_policy_before_broadcast\<close> below).
\<close>

theorem transient_failure_after_broadcast_strands_job:
  "status exAttestedJob = Attested
   \<and> retryCount exAttestedJob + 1 < maxRetries exConfig
   \<and> \<not> isTerminal (''Tx reverted: '' @ exDestTx)
   \<and> submitterIteration tie exConfig exEnvReverted [exAttestedJob] = [exStrandedJob]
   \<and> status exStrandedJob = Submitted
   \<and> retryCount exStrandedJob = 1
   \<and> error exStrandedJob = Some (''Tx reverted: '' @ exDestTx)
   \<and> getOldestByStatus tie [exStrandedJob] Attested = None
   \<and> submitterIteration tie config env [exStrandedJob] = [exStrandedJob]"
proof -
  have n: "getOldestByStatus tie [exStrandedJob] Attested = None"
    by (simp add: oldest_single ex_status)
  have r: "retryCount exAttestedJob + 1 < maxRetries exConfig" "retryCount exStrandedJob = 1"
    "error exStrandedJob = Some (''Tx reverted: '' @ exDestTx)"
    by (simp_all add: ex_jobs exConfig_def)
  from n iteration_idle [OF n] r revert_not_terminal stranded_iteration ex_status(3,5)
  show ?thesis by blast
qed

section \<open>Reachable states and stored outcomes\<close>















section \<open>Submitted rows after a restart; the failure policy\<close>

lemma str_includes_iff: "str_includes s sub \<longleftrightarrow> (\<exists>ps ss. s = ps @ sub @ ss)"
proof (induction s)
  case Nil
  then show ?case by auto
next
  case (Cons c cs)
  show ?case
  proof
    assume "str_includes (c # cs) sub"
    then consider "take (length sub) (c # cs) = sub" | "str_includes cs sub" by auto
    then show "\<exists>ps ss. c # cs = ps @ sub @ ss"
    proof cases
      case 1
      then have "c # cs = [] @ sub @ drop (length sub) (c # cs)"
        by (metis append_Nil append_take_drop_id)
      then show ?thesis by blast
    next
      case 2
      with Cons.IH obtain ps ss where "cs = ps @ sub @ ss" by blast
      then have "c # cs = (c # ps) @ sub @ ss" by simp
      then show ?thesis by blast
    qed
  next
    assume "\<exists>ps ss. c # cs = ps @ sub @ ss"
    then obtain ps ss where e: "c # cs = ps @ sub @ ss" by blast
    show "str_includes (c # cs) sub"
    proof (cases ps)
      case Nil
      with e have "take (length sub) (c # cs) = sub" by simp
      then show ?thesis by simp
    next
      case (Cons p ps')
      with e have "cs = ps' @ sub @ ss" by simp
      with Cons.IH have "str_includes cs sub" by blast
      then show ?thesis by simp
    qed
  qed
qed

lemma other_row_kept: "j \<in> set db \<Longrightarrow> txHash j \<noteq> h \<Longrightarrow> j \<in> set (updateJob db now h u)"
  by (auto simp: in_updateJob)

lemma failure_keeps_other_row:
  "j \<in> set db \<Longrightarrow> txHash j \<noteq> txHash job \<Longrightarrow>
   j \<in> set (onSubmissionFailure config job message now db)"
  by (simp add: onSubmissionFailure_def Let_def other_row_kept)

lemma key_of_other_status:
  assumes "distinct (map txHash db)" "j \<in> set db" "statusOf db h = Some st" "status j \<noteq> st"
  shows "txHash j \<noteq> h"
  using assms statusOf_of_row by fastforce

lemma submitted_row_step:
  assumes st: "step config keccak s s'" and c: "consistent s"
    and j: "j \<in> set (fst s)" "status j = Submitted" and q: "notAwaited (snd (snd s)) (txHash j)"
  shows "j \<in> set (fst s') \<and> notAwaited (snd (snd s')) (txHash j)"
  using st c j q
proof (induction rule: step.induct)
  case (post db p q reqBody now)
  then show ?case using postRelay_store [of reqBody now db] by auto
next
  case restart
  then show ?case by (simp add: notAwaited_def)
next
  case poll_fetch
  then show ?case by simp
next
  case poll_end
  then show ?case by simp
next
  case (poll_begin elapsed now job rest db p' db' q)
  from poll_begin.prems have d: "distinct (map txHash db)"
    and s: "statusOf db (txHash job) = Some Pending \<or> statusOf db (txHash job) = Some Polling"
    by (simp_all add: consistent_def)
  from poll_begin.prems have jin: "j \<in> set db" by simp
  have "txHash j \<noteq> txHash job"
    using s key_of_other_status [OF d jin _ ] poll_begin.prems(3) by fastforce
  with poll_begin jin show ?case
    by (auto simp: pollerBegin_def other_row_kept split: if_splits)
next
  case (poll_resume r attestedNow now job rest db p' db' q)
  from poll_resume.prems have d: "distinct (map txHash db)"
    and s: "statusOf db (txHash job) = Some Pending \<or> statusOf db (txHash job) = Some Polling"
    by (simp_all add: consistent_def)
  from poll_resume.prems have jin: "j \<in> set db" by simp
  have k: "txHash j \<noteq> txHash job"
    using s key_of_other_status [OF d jin _ ] poll_resume.prems(3) by fastforce
  have "j \<in> set db'"
  proof (cases "pollerTry config keccak r attestedNow now job db")
    case (Inl err)
    with poll_resume.hyps jin show ?thesis by (simp add: pollerResume_def)
  next
    case (Inr db1)
    then obtain u where "db1 = updateJob db now (txHash job) u"
      by (auto simp: pollerTry_def split: sum.splits option.splits if_splits prod.splits)
    moreover from Inr poll_resume.hyps have "db' = db1" by (simp add: pollerResume_def)
    ultimately show ?thesis using jin k by (simp add: other_row_kept)
  qed
  with poll_resume.prems show ?case by simp
next
  case submit_pick
  then show ?case by (simp add: notAwaited_def)
next
  case (submit_estimated r now job db q' db' p)
  from submit_estimated.prems have d: "distinct (map txHash db)"
    and s: "statusOf db (txHash job) = Some Attested" and jin: "j \<in> set db"
    by (simp_all add: consistent_def)
  have k: "txHash j \<noteq> txHash job"
    using key_of_other_status [OF d jin s] submit_estimated.prems(3) by simp
  with submit_estimated.hyps jin show ?case
    by (cases r) (auto simp: estimateDone_def notAwaited_def failure_keeps_other_row)
next
  case (submit_sent r sNow now job db q' db' p)
  from submit_sent.prems have d: "distinct (map txHash db)"
    and s: "statusOf db (txHash job) = Some Attested" and jin: "j \<in> set db"
    by (simp_all add: consistent_def)
  have k: "txHash j \<noteq> txHash job"
    using key_of_other_status [OF d jin s] submit_sent.prems(3) by simp
  with submit_sent.hyps jin show ?case
    by (cases r)
       (auto simp: sendDone_def notAwaited_def failure_keeps_other_row markSubmitted_def other_row_kept)
next
  case (submit_waited w cNow now job txh db q' db' p)
  from submit_waited.prems have jin: "j \<in> set db" and k: "txHash j \<noteq> txHash job"
    by (auto simp: notAwaited_def)
  with submit_waited.hyps show ?case
    by (cases "awaitReceipt txh w")
       (auto simp: waitDone_def notAwaited_def failure_keeps_other_row markConfirmed_def other_row_kept)
qed

lemma submitted_row_stays:
  assumes run: "rtranclp (step config keccak) (db0, PIdle, SIdle) (db, p, q)"
    and c: "consistent (db0, PIdle, SIdle)"
    and j: "j \<in> set db0" "status j = Submitted"
  shows "j \<in> set db"
proof -
  have "consistent s \<and> j \<in> set (fst s) \<and> notAwaited (snd (snd s)) (txHash j)"
    if "rtranclp (step config keccak) (db0, PIdle, SIdle) s" for s
    using that
  proof (induction rule: rtranclp_induct)
    case base
    from c j show ?case by (simp add: notAwaited_def)
  next
    case (step y z)
    from step.IH have a: "consistent y" "j \<in> set (fst y)" "notAwaited (snd (snd y)) (txHash j)"
      by simp_all
    from step_consistent [OF step.hyps(2) a(1)]
      submitted_row_step [OF step.hyps(2) a(1) a(2) j(2) a(3)]
    show ?case by simp
  qed
  from this [OF run] show ?thesis by simp
qed

lemma failure_policy_before_broadcast:
  assumes "getJob db (txHash job) = Some job" and "status job = Attested"
  shows "map_option (\<lambda>j. (status j, retryCount j, error j))
           (getJob (onSubmissionFailure config job message now db) (txHash job)) =
         Some (if isTerminal message \<or> retryCount job + 1 \<ge> maxRetries config then Failed else Attested,
               retryCount job + 1, Some message)"
  using assms
  by (simp add: onSubmissionFailure_def Let_def getJob_update applyUpdates_def noUpdates_def)

end
